theory Spec2Isabelle
  imports Complex_Main
begin

section \<open>Sliding-window plane extraction: the embedding\<close>

text \<open>
  The embedding follows \<^verbatim>\<open>SlidingWindowPlaneExtractor.cpp\<close>. Doubles are modelled as
  reals; a height that is not finite (NaN or an infinity) is \<open>None\<close>. The libraries the
  file calls (the Eigen eigen-solver, the OpenCV erosion and connected-component
  labelling, the RANSAC plane detector, the grid map's position lookup, the orientation
  utility) are arguments of the model, collected in the record \<open>externals\<close>: a theorem
  holds for every such collaborator unless it states an assumption on one. The model is
  of the runs in which the collaborators return. Labels are the \<open>int\<close> of the source,
  taken as unbounded integers: a run allocates fewer labels than the map has cells.
\<close>

subsection \<open>Eigen::Vector3d and Eigen::Matrix3d\<close>

type_synonym vec3 = "real \<times> real \<times> real"

text \<open>A matrix is the triple of its rows.\<close>

type_synonym mat3 = "vec3 \<times> vec3 \<times> vec3"

definition Zero3 :: vec3 where
  "Zero3 = (0, 0, 0)"

definition UnitZ :: vec3 where
  "UnitZ = (0, 0, 1)"

definition ZeroM :: mat3 where
  "ZeroM = (Zero3, Zero3, Zero3)"

fun vx :: "vec3 \<Rightarrow> real" where
  "vx (x, y, z) = x"

fun vy :: "vec3 \<Rightarrow> real" where
  "vy (x, y, z) = y"

fun vz :: "vec3 \<Rightarrow> real" where
  "vz (x, y, z) = z"

fun vadd :: "vec3 \<Rightarrow> vec3 \<Rightarrow> vec3" where
  "vadd (a, b, c) (x, y, z) = (a + x, b + y, c + z)"

fun vsub :: "vec3 \<Rightarrow> vec3 \<Rightarrow> vec3" where
  "vsub (a, b, c) (x, y, z) = (a - x, b - y, c - z)"

fun vneg :: "vec3 \<Rightarrow> vec3" where
  "vneg (x, y, z) = (- x, - y, - z)"

fun vscale :: "real \<Rightarrow> vec3 \<Rightarrow> vec3" where
  "vscale k (x, y, z) = (k * x, k * y, k * z)"

fun vdiv :: "vec3 \<Rightarrow> real \<Rightarrow> vec3" where
  "vdiv (x, y, z) k = (x / k, y / k, z / k)"

fun dot :: "vec3 \<Rightarrow> vec3 \<Rightarrow> real" where
  "dot (a, b, c) (x, y, z) = a * x + b * y + c * z"

text \<open>\<^verbatim>\<open>point * point.transpose()\<close>\<close>

fun outer :: "vec3 \<Rightarrow> vec3 \<Rightarrow> mat3" where
  "outer (a, b, c) v = (vscale a v, vscale b v, vscale c v)"

fun madd :: "mat3 \<Rightarrow> mat3 \<Rightarrow> mat3" where
  "madd (r0, r1, r2) (s0, s1, s2) = (vadd r0 s0, vadd r1 s1, vadd r2 s2)"

fun msub :: "mat3 \<Rightarrow> mat3 \<Rightarrow> mat3" where
  "msub (r0, r1, r2) (s0, s1, s2) = (vsub r0 s0, vsub r1 s1, vsub r2 s2)"

fun mdiv :: "mat3 \<Rightarrow> real \<Rightarrow> mat3" where
  "mdiv (r0, r1, r2) k = (vdiv r0 k, vdiv r1 k, vdiv r2 k)"

text \<open>\<^verbatim>\<open>m.col(0)\<close>\<close>

fun col0 :: "mat3 \<Rightarrow> vec3" where
  "col0 (r0, r1, r2) = (vx r0, vx r1, vx r2)"

text \<open>Matrix times vector, used only to say what an eigenvector is.\<close>

fun mvmul :: "mat3 \<Rightarrow> vec3 \<Rightarrow> vec3" where
  "mvmul (r0, r1, r2) v = (dot r0 v, dot r1 v, dot r2 v)"

subsection \<open>The collaborators\<close>

text \<open>
  \<open>SelfAdjointEigenSolver::computeDirect\<close> followed by \<open>eigenvalues()\<close> and
  \<open>eigenvectors()\<close>: the eigenvalues in ascending order, and the matrix whose columns are
  the eigenvectors.
\<close>

type_synonym eigensolver = "mat3 \<Rightarrow> vec3 \<times> mat3"

text \<open>\<^verbatim>\<open>ransac_plane_extractor::PointWithNormal\<close>: a point and its normal.\<close>

type_synonym point_with_normal = "vec3 \<times> vec3"

text \<open>
  What the detector leaves behind after \<open>detectPlanes\<close>: the point vector, which it
  reorders in place, the index lists \<open>indices_of_assigned_points()\<close> of the planes of
  \<open>getDetectedPlanes()\<close> in their order, and \<open>getUnassignedPointIndices()\<close>.
\<close>

record ransac_result =
  rr_points :: "point_with_normal list"
  rr_planes :: "nat list list"
  rr_unassigned :: "nat list"

text \<open>\<^verbatim>\<open>cv::Mat\<close>: the extent and the entry at (row, col).\<close>

record 'a cvmat =
  mat_rows :: nat
  mat_cols :: nat
  mat_at :: "nat \<times> nat \<Rightarrow> 'a"

text \<open>
  The grid map as the extractor reads it: \<open>getSize()\<close>, \<open>getResolution()\<close>, the position
  of index (0, 0), and the elevation layer, \<open>None\<close> where the stored float is not finite.
\<close>

record grid_map =
  gm_rows :: nat
  gm_cols :: nat
  gm_resolution :: real
  gm_origin :: "real \<times> real"
  gm_elevation :: "nat \<times> nat \<Rightarrow> real option"

text \<open>
  The collaborators of the extractor. \<open>erodeCross n\<close> is \<open>cv::erode\<close> with the
  \<open>MORPH_CROSS\<close> structuring element of size \<open>n \<times> n\<close>; \<open>connectedComponents\<close> returns the
  number of labels and the labelled image; \<open>getIndex\<close> is \<open>GridMap::getIndex\<close>, from a
  position to the indices of its cell; \<open>orientation\<close> is
  \<open>orientationWorldToTerrainFromSurfaceNormalInWorld\<close>; \<open>getLinearIndex\<close> is the
  extractor's own inline helper, declared in the class header and not part of the
  translation unit embedded here, so it is taken as an argument too; \<open>freshStorage\<close>
  is what storage that has been allocated and not yet written holds.
\<close>

record externals =
  solver :: eigensolver
  erodeCross :: "int \<Rightarrow> bool cvmat \<Rightarrow> bool cvmat"
  connectedComponents :: "bool cvmat \<Rightarrow> int \<Rightarrow> int \<times> int cvmat"
  detectPlanes :: "point_with_normal list \<Rightarrow> ransac_result"
  getIndex :: "real \<times> real \<Rightarrow> nat \<times> nat"
  orientation :: "vec3 \<Rightarrow> mat3"
  getLinearIndex :: "nat \<Rightarrow> nat \<Rightarrow> nat"
  freshStorage :: vec3

subsection \<open>Parameters and state\<close>

record parameters =
  kernel_size :: nat
  planarity_erosion :: int
  plane_inclination_threshold_degrees :: real
  plane_patch_error_threshold :: real
  min_number_points_per_label :: int
  connectivity :: int
  include_ransac_refinement :: bool
  global_plane_fit_distance_error_threshold :: real
  global_plane_fit_angle_error_threshold_degrees :: real

text \<open>\<^verbatim>\<open>TerrainPlane(supportVector, terrainOrientation)\<close>\<close>

type_synonym terrain_plane = "vec3 \<times> mat3"

record segmented_planes_map =
  resolution :: real
  mapOrigin :: "real \<times> real"
  highestLabel :: int
  labeledImage :: "int cvmat"
  labelPlaneParameters :: "(int \<times> terrain_plane) list"

subsection \<open>Helpers of the anonymous namespace\<close>

definition angleBetweenNormalizedVectorsInDegrees :: "vec3 \<Rightarrow> vec3 \<Rightarrow> real" where
  "angleBetweenNormalizedVectorsInDegrees v1 v2 =
     (let cos_rad = dot v1 v2;
          cos_rad = (if cos_rad < - 1 then - 1 else if cos_rad > 1 then 1 else cos_rad)
      in \<bar>arccos cos_rad * 180 / pi\<bar>)"

definition covarianceMatrix :: "nat \<Rightarrow> vec3 \<Rightarrow> mat3 \<Rightarrow> mat3" where
  "covarianceMatrix numPoint mean sumSquared =
     msub (mdiv sumSquared (real numPoint)) (outer mean mean)"

definition normalAndErrorFromCovariance ::
  "eigensolver \<Rightarrow> nat \<Rightarrow> vec3 \<Rightarrow> mat3 \<Rightarrow> vec3 \<times> real" where
  "normalAndErrorFromCovariance slv numPoint mean sumSquared =
     (let (eigenvalues, eigenvectors) = slv (covarianceMatrix numPoint mean sumSquared)
      in if vy eigenvalues > 1 / 10 ^ 8 then
           (let unitaryNormalVector = col0 eigenvectors;
                unitaryNormalVector =
                  (if vz unitaryNormalVector < 0 then vneg unitaryNormalVector
                   else unitaryNormalVector);
                rmsError = (if vx eigenvalues > 0 then sqrt (vx eigenvalues) else 0)
            in (unitaryNormalVector, rmsError))
         else (UnitZ, 10 ^ 30))"

subsection \<open>computeNormalAndErrorForWindow\<close>

text \<open>
  The window is the \<open>Eigen::MatrixXf\<close> read at (kernel_row, kernel_col). The two nested
  loops visit the columns outermost.
\<close>

type_synonym window = "nat \<times> nat \<Rightarrow> real option"

definition allCells :: "nat \<Rightarrow> nat \<Rightarrow> (nat \<times> nat) list" where
  "allCells nrows ncols = concat (map (\<lambda>col. map (\<lambda>row. (row, col)) [0..<nrows]) [0..<ncols])"

definition kernelCells :: "nat \<Rightarrow> (nat \<times> nat) list" where
  "kernelCells k = allCells k k"

text \<open>One pass of the loop body: the running count, sum and sum of outer products.\<close>

fun accumulate :: "nat \<times> vec3 \<times> mat3 \<Rightarrow> vec3 \<Rightarrow> nat \<times> vec3 \<times> mat3" where
  "accumulate (nPoints, sumPoints, sumSquared) point =
     (nPoints + 1, vadd sumPoints point, madd sumSquared (outer point point))"

definition gatherWindow :: "real \<Rightarrow> nat \<Rightarrow> window \<Rightarrow> nat \<times> vec3 \<times> mat3" where
  "gatherWindow res k windowData =
     foldl (\<lambda>acc (kernel_row, kernel_col).
              case windowData (kernel_row, kernel_col) of
                None \<Rightarrow> acc
              | Some height \<Rightarrow>
                  accumulate acc (- real kernel_row * res, - real kernel_col * res, height))
           (0, Zero3, ZeroM) (kernelCells k)"

definition computeNormalAndErrorForWindow ::
  "eigensolver \<Rightarrow> real \<Rightarrow> nat \<Rightarrow> window \<Rightarrow> vec3 \<times> real" where
  "computeNormalAndErrorForWindow slv res k windowData =
     (let (nPoints, sumPoints, sumSquared) = gatherWindow res k windowData
      in if nPoints < 3 then (UnitZ, 10 ^ 30)
         else normalAndErrorFromCovariance slv nPoints (vdiv sumPoints (real nPoints)) sumSquared)"

text \<open>The covariance matrix that the window hands to the eigen-solver.\<close>

definition windowCovariance :: "real \<Rightarrow> nat \<Rightarrow> window \<Rightarrow> mat3" where
  "windowCovariance res k windowData =
     (let (nPoints, sumPoints, sumSquared) = gatherWindow res k windowData
      in covarianceMatrix nPoints (vdiv sumPoints (real nPoints)) sumSquared)"

text \<open>The number of entries of the window with a finite height.\<close>

definition finiteCount :: "nat \<Rightarrow> window \<Rightarrow> nat" where
  "finiteCount k windowData = length (filter (\<lambda>cell. windowData cell \<noteq> None) (kernelCells k))"

subsection \<open>The buffer of window normals\<close>

text \<open>
  \<open>surfaceNormals_\<close> is a \<open>std::vector\<close>: its \<open>size()\<close>, and the storage it has allocated,
  whose length is its \<open>capacity()\<close>. \<open>operator[]\<close> does not look at \<open>size()\<close>: reads and
  writes go to the storage. \<open>reserve\<close> leaves \<open>size()\<close> alone; when it reallocates it keeps
  the first \<open>size()\<close> entries. \<open>std::fill_n\<close> from \<open>begin()\<close> overwrites the first \<open>n\<close>
  entries of the storage, which \<open>reserve\<close> has made at least \<open>n\<close> long.
\<close>

record normal_buffer =
  nb_size :: nat
  nb_storage :: "vec3 list"

definition reserve :: "vec3 \<Rightarrow> nat \<Rightarrow> normal_buffer \<Rightarrow> normal_buffer" where
  "reserve fresh n buf =
     (if length (nb_storage buf) < n
      then buf\<lparr>nb_storage := take (nb_size buf) (nb_storage buf) @ replicate (n - nb_size buf) fresh\<rparr>
      else buf)"

definition fill_n :: "nat \<Rightarrow> vec3 \<Rightarrow> normal_buffer \<Rightarrow> normal_buffer" where
  "fill_n n v buf = buf\<lparr>nb_storage := replicate n v @ drop n (nb_storage buf)\<rparr>"

definition writeNormal :: "normal_buffer \<Rightarrow> nat \<Rightarrow> vec3 \<Rightarrow> normal_buffer" where
  "writeNormal buf i v = buf\<lparr>nb_storage := (nb_storage buf)[i := v]\<rparr>"

definition readNormal :: "normal_buffer \<Rightarrow> nat \<Rightarrow> vec3" where
  "readNormal buf i = nb_storage buf ! i"

definition setAt :: "'a cvmat \<Rightarrow> nat \<times> nat \<Rightarrow> 'a \<Rightarrow> 'a cvmat" where
  "setAt img index v = img\<lparr>mat_at := (mat_at img)(index := v)\<rparr>"

record extractor =
  segmentedPlanesMap :: segmented_planes_map
  binaryImagePatch :: "bool cvmat"
  surfaceNormals :: normal_buffer

subsection \<open>runExtraction: the initialisation\<close>

definition initSurfaceNormals :: "vec3 \<Rightarrow> nat \<Rightarrow> normal_buffer \<Rightarrow> normal_buffer" where
  "initSurfaceNormals fresh linearMapSize buf =
     (if nb_size buf < linearMapSize
      then fill_n linearMapSize Zero3 (reserve fresh linearMapSize buf)
      else buf)"

definition initExtraction :: "externals \<Rightarrow> grid_map \<Rightarrow> extractor \<Rightarrow> extractor" where
  "initExtraction ext gm e =
     \<lparr>segmentedPlanesMap = (segmentedPlanesMap e)
        \<lparr>resolution := gm_resolution gm, mapOrigin := gm_origin gm,
         highestLabel := - 1, labelPlaneParameters := []\<rparr>,
      binaryImagePatch = \<lparr>mat_rows = gm_rows gm, mat_cols = gm_cols gm, mat_at = (\<lambda>index. False)\<rparr>,
      surfaceNormals = initSurfaceNormals (freshStorage ext) (gm_rows gm * gm_cols gm) (surfaceNormals e)\<rparr>"

subsection \<open>runSlidingWindowDetector\<close>

definition isLocallyPlanar :: "parameters \<Rightarrow> vec3 \<Rightarrow> real \<Rightarrow> bool" where
  "isLocallyPlanar p localNormal meanError =
     (meanError < plane_patch_error_threshold p \<and>
      angleBetweenNormalizedVectorsInDegrees localNormal UnitZ < plane_inclination_threshold_degrees p)"

text \<open>
  \<open>grid_map::SlidingWindowIterator\<close> with \<open>EdgeHandling::INSIDE\<close> walks the indices of the
  map in storage order (columns outermost) and stops only at those whose whole window
  lies inside the map; \<open>getData()\<close> is the block of the layer around the index. The
  window size is odd, as the configuration asks.
\<close>

definition dataInsideMap :: "grid_map \<Rightarrow> nat \<Rightarrow> nat \<times> nat \<Rightarrow> bool" where
  "dataInsideMap gm windowMargin index =
     (windowMargin \<le> fst index \<and> fst index + windowMargin < gm_rows gm \<and>
      windowMargin \<le> snd index \<and> snd index + windowMargin < gm_cols gm)"

definition windowIndices :: "grid_map \<Rightarrow> nat \<Rightarrow> (nat \<times> nat) list" where
  "windowIndices gm k =
     filter (dataInsideMap gm ((k - 1) div 2)) (allCells (gm_rows gm) (gm_cols gm))"

definition getData :: "grid_map \<Rightarrow> nat \<Rightarrow> nat \<times> nat \<Rightarrow> window" where
  "getData gm windowMargin index =
     (\<lambda>(kernel_row, kernel_col).
        gm_elevation gm (fst index - windowMargin + kernel_row, snd index - windowMargin + kernel_col))"

definition kernelMiddle :: "parameters \<Rightarrow> nat" where
  "kernelMiddle p = (kernel_size p - 1) div 2"

definition detectorStep :: "externals \<Rightarrow> parameters \<Rightarrow> grid_map \<Rightarrow> extractor \<Rightarrow> nat \<times> nat \<Rightarrow> extractor" where
  "detectorStep ext p gm e index =
     (let window_data = getData gm (kernelMiddle p) index
      in case window_data (kernelMiddle p, kernelMiddle p) of
           None \<Rightarrow> e\<lparr>binaryImagePatch := setAt (binaryImagePatch e) index False\<rparr>
         | Some middleValue \<Rightarrow>
             (let (n, mean_error) =
                    computeNormalAndErrorForWindow (solver ext) (resolution (segmentedPlanesMap e))
                      (kernel_size p) window_data
              in e\<lparr>surfaceNormals :=
                      writeNormal (surfaceNormals e) (getLinearIndex ext (fst index) (snd index)) n,
                    binaryImagePatch :=
                      setAt (binaryImagePatch e) index (isLocallyPlanar p n mean_error)\<rparr>))"

text \<open>The loop over the window iterator, and the erosion after it.\<close>

definition slidingWindowScan :: "externals \<Rightarrow> parameters \<Rightarrow> grid_map \<Rightarrow> extractor \<Rightarrow> extractor" where
  "slidingWindowScan ext p gm e = foldl (detectorStep ext p gm) e (windowIndices gm (kernel_size p))"

definition runSlidingWindowDetector :: "externals \<Rightarrow> parameters \<Rightarrow> grid_map \<Rightarrow> extractor \<Rightarrow> extractor" where
  "runSlidingWindowDetector ext p gm e =
     (let e = slidingWindowScan ext p gm e
      in if planarity_erosion p > 0
         then e\<lparr>binaryImagePatch :=
                  erodeCross ext (2 * planarity_erosion p + 1) (binaryImagePatch e)\<rparr>
         else e)"

subsection \<open>runSegmentation\<close>

definition runSegmentation :: "externals \<Rightarrow> parameters \<Rightarrow> extractor \<Rightarrow> extractor" where
  "runSegmentation ext p e =
     (let (numberOfLabel, labels) = connectedComponents ext (binaryImagePatch e) (connectivity p)
      in e\<lparr>segmentedPlanesMap :=
              (segmentedPlanesMap e)\<lparr>labeledImage := labels, highestLabel := numberOfLabel - 1\<rparr>\<rparr>)"

subsection \<open>isGloballyPlanar\<close>

fun isGloballyPlanar :: "parameters \<Rightarrow> vec3 \<Rightarrow> vec3 \<Rightarrow> point_with_normal list \<Rightarrow> bool" where
  "isGloballyPlanar p normalVectorPlane supportVectorPlane [] = True"
| "isGloballyPlanar p normalVectorPlane supportVectorPlane (pointWithNormal # rest) =
     (let normalDotSupportvector = dot normalVectorPlane supportVectorPlane;
          normalDotPoint = dot normalVectorPlane (fst pointWithNormal);
          distanceError = \<bar>normalDotPoint - normalDotSupportvector\<bar>
      in if distanceError > global_plane_fit_distance_error_threshold p then False
         else if angleBetweenNormalizedVectorsInDegrees (snd pointWithNormal) normalVectorPlane
                   > global_plane_fit_angle_error_threshold_degrees p
              then False
              else isGloballyPlanar p normalVectorPlane supportVectorPlane rest)"

subsection \<open>refineLabelWithRansac\<close>

text \<open>
  The point vector is read at the indices the detector reports, without a check, as
  in the source. A plane without an index makes the source divide by zero where the
  model divides a real by 0; the detector reports no such plane, and the labels, which
  the properties below are about, do not depend on the quotient.
\<close>

text \<open>The cell that \<open>map_->getIndex\<close> finds for the point at an index of the point vector.\<close>

definition cellOf :: "externals \<Rightarrow> point_with_normal list \<Rightarrow> nat \<Rightarrow> nat \<times> nat" where
  "cellOf ext pointsWithNormal index =
     (let point = fst (pointsWithNormal ! index) in getIndex ext (vx point, vy point))"

text \<open>The body of the loop over the indices of one plane.\<close>

fun planePointStep ::
  "externals \<Rightarrow> point_with_normal list \<Rightarrow> int \<Rightarrow> int \<Rightarrow> vec3 \<times> mat3 \<times> int cvmat \<Rightarrow> nat
   \<Rightarrow> vec3 \<times> mat3 \<times> int cvmat" where
  "planePointStep ext pointsWithNormal label newLabel (sumPoints, sumSquared, img) index =
     (let point3d = fst (pointsWithNormal ! index)
      in (vadd sumPoints point3d, madd sumSquared (outer point3d point3d),
          if newLabel \<noteq> label then setAt img (cellOf ext pointsWithNormal index) newLabel else img))"

definition emitPlane ::
  "externals \<Rightarrow> parameters \<Rightarrow> int \<Rightarrow> vec3 \<Rightarrow> vec3 \<Rightarrow> segmented_planes_map \<Rightarrow> segmented_planes_map" where
  "emitPlane ext p label supportVector normalVector spm =
     (if angleBetweenNormalizedVectorsInDegrees normalVector UnitZ
           < plane_inclination_threshold_degrees p
      then spm\<lparr>labelPlaneParameters :=
                 labelPlaneParameters spm @ [(label, (supportVector, orientation ext normalVector))]\<rparr>
      else spm)"

fun refinePlanes ::
  "externals \<Rightarrow> parameters \<Rightarrow> int \<Rightarrow> point_with_normal list \<Rightarrow> bool \<Rightarrow> nat list list
   \<Rightarrow> segmented_planes_map \<Rightarrow> segmented_planes_map" where
  "refinePlanes ext p label pointsWithNormal reuseLabel [] spm = spm"
| "refinePlanes ext p label pointsWithNormal reuseLabel (plane_point_indices # planes) spm =
     (let newLabel = (if reuseLabel then label else highestLabel spm + 1);
          spm = (if reuseLabel then spm else spm\<lparr>highestLabel := highestLabel spm + 1\<rparr>);
          (sumPoints, sumSquared, img) =
            foldl (planePointStep ext pointsWithNormal label newLabel)
              (Zero3, ZeroM, labeledImage spm) plane_point_indices;
          spm = spm\<lparr>labeledImage := img\<rparr>;
          numPoints = length plane_point_indices;
          supportVector = vdiv sumPoints (real numPoints);
          normalVector =
            fst (normalAndErrorFromCovariance (solver ext) numPoints supportVector sumSquared)
      in refinePlanes ext p label pointsWithNormal False planes
           (emitPlane ext p newLabel supportVector normalVector spm))"

definition resetUnassigned ::
  "externals \<Rightarrow> point_with_normal list \<Rightarrow> nat list \<Rightarrow> int cvmat \<Rightarrow> int cvmat" where
  "resetUnassigned ext pointsWithNormal unassigned_points img =
     foldl (\<lambda>img index. setAt img (cellOf ext pointsWithNormal index) 0) img unassigned_points"

definition refineLabelWithRansac ::
  "externals \<Rightarrow> parameters \<Rightarrow> int \<Rightarrow> point_with_normal list \<Rightarrow> segmented_planes_map
   \<Rightarrow> segmented_planes_map" where
  "refineLabelWithRansac ext p label pointsWithNormal spm =
     (let detected = detectPlanes ext pointsWithNormal;
          spm = refinePlanes ext p label (rr_points detected) True (rr_planes detected) spm
      in spm\<lparr>labeledImage :=
                resetUnassigned ext (rr_points detected) (rr_unassigned detected) (labeledImage spm)\<rparr>)"

subsection \<open>computePlaneParametersForLabel\<close>

text \<open>The body of the two loops over the labelled image, columns outermost.\<close>

definition collectStep ::
  "externals \<Rightarrow> grid_map \<Rightarrow> normal_buffer \<Rightarrow> int \<Rightarrow> segmented_planes_map
   \<Rightarrow> (nat \<times> vec3 \<times> mat3) \<times> point_with_normal list \<Rightarrow> nat \<times> nat
   \<Rightarrow> (nat \<times> vec3 \<times> mat3) \<times> point_with_normal list" where
  "collectStep ext gm normals label spm acc index =
     (if mat_at (labeledImage spm) index = label
      then (case gm_elevation gm index of
              None \<Rightarrow> acc
            | Some height \<Rightarrow>
                (let point3d = (fst (mapOrigin spm) - real (fst index) * resolution spm,
                                snd (mapOrigin spm) - real (snd index) * resolution spm, height);
                     localSurfaceNormal =
                       readNormal normals (getLinearIndex ext (fst index) (snd index))
                 in (accumulate (fst acc) point3d, snd acc @ [(point3d, localSurfaceNormal)])))
      else acc)"

definition collectPoints ::
  "externals \<Rightarrow> grid_map \<Rightarrow> normal_buffer \<Rightarrow> int \<Rightarrow> segmented_planes_map
   \<Rightarrow> (nat \<times> vec3 \<times> mat3) \<times> point_with_normal list" where
  "collectPoints ext gm normals label spm =
     foldl (collectStep ext gm normals label spm) ((0, Zero3, ZeroM), [])
       (allCells (mat_rows (labeledImage spm)) (mat_cols (labeledImage spm)))"

definition computePlaneParametersForLabel ::
  "externals \<Rightarrow> parameters \<Rightarrow> grid_map \<Rightarrow> normal_buffer \<Rightarrow> int \<Rightarrow> segmented_planes_map
   \<Rightarrow> segmented_planes_map" where
  "computePlaneParametersForLabel ext p gm normals label spm =
     (let ((numPoints, sumPoints, sumSquared), pointsWithNormal) =
            collectPoints ext gm normals label spm
      in if int numPoints < min_number_points_per_label p \<or> numPoints < 3 then spm
         else
           (let supportVector = vdiv sumPoints (real numPoints);
                normalVector =
                  fst (normalAndErrorFromCovariance (solver ext) numPoints supportVector sumSquared)
            in if include_ransac_refinement p \<and>
                  \<not> isGloballyPlanar p normalVector supportVector pointsWithNormal
               then refineLabelWithRansac ext p label pointsWithNormal spm
               else emitPlane ext p label supportVector normalVector spm))"

subsection \<open>extractPlaneParametersFromLabeledImage and runExtraction\<close>

function extractLoop ::
  "externals \<Rightarrow> parameters \<Rightarrow> grid_map \<Rightarrow> normal_buffer \<Rightarrow> int \<Rightarrow> int \<Rightarrow> segmented_planes_map
   \<Rightarrow> segmented_planes_map" where
  "extractLoop ext p gm normals label numberOfExtractedPlanesWithoutRefinement spm =
     (if label \<le> numberOfExtractedPlanesWithoutRefinement
      then extractLoop ext p gm normals (label + 1) numberOfExtractedPlanesWithoutRefinement
             (computePlaneParametersForLabel ext p gm normals label spm)
      else spm)"
  by pat_completeness auto
termination
  by (relation "measure (\<lambda>(ext, p, gm, normals, label, n, spm). nat (n + 1 - label))") auto

declare extractLoop.simps [simp del]

definition extractPlaneParametersFromLabeledImage ::
  "externals \<Rightarrow> parameters \<Rightarrow> grid_map \<Rightarrow> normal_buffer \<Rightarrow> segmented_planes_map
   \<Rightarrow> segmented_planes_map" where
  "extractPlaneParametersFromLabeledImage ext p gm normals spm =
     extractLoop ext p gm normals 1 (highestLabel spm) spm"

text \<open>The state when the loop over the labels starts.\<close>

definition segmented :: "externals \<Rightarrow> parameters \<Rightarrow> grid_map \<Rightarrow> extractor \<Rightarrow> extractor" where
  "segmented ext p gm e =
     runSegmentation ext p (runSlidingWindowDetector ext p gm (initExtraction ext gm e))"

definition runExtraction :: "externals \<Rightarrow> parameters \<Rightarrow> grid_map \<Rightarrow> extractor \<Rightarrow> extractor" where
  "runExtraction ext p gm e =
     (let e = segmented ext p gm e
      in e\<lparr>segmentedPlanesMap :=
              extractPlaneParametersFromLabeledImage ext p gm (surfaceNormals e)
                (segmentedPlanesMap e)\<rparr>)"


subsection \<open>Notions used to state the properties\<close>

text \<open>Whether the middle value of the window at an index is finite, and what the window yields.\<close>

definition centreFinite :: "grid_map \<Rightarrow> parameters \<Rightarrow> nat \<times> nat \<Rightarrow> bool" where
  "centreFinite gm p index =
     (getData gm (kernelMiddle p) index (kernelMiddle p, kernelMiddle p) \<noteq> None)"

definition windowResult ::
  "externals \<Rightarrow> parameters \<Rightarrow> grid_map \<Rightarrow> real \<Rightarrow> nat \<times> nat \<Rightarrow> vec3 \<times> real" where
  "windowResult ext p gm res index =
     computeNormalAndErrorForWindow (solver ext) res (kernel_size p)
       (getData gm (kernelMiddle p) index)"

text \<open>
  What the properties ask of \<open>getLinearIndex\<close>: it numbers the cells of the map below
  rows \<times> cols, no two cells alike.
\<close>

definition denseLinearIndex :: "externals \<Rightarrow> grid_map \<Rightarrow> bool" where
  "denseLinearIndex ext gm =
     (\<forall>r < gm_rows gm. \<forall>c < gm_cols gm.
        getLinearIndex ext r c < gm_rows gm * gm_cols gm \<and>
        (\<forall>r' < gm_rows gm. \<forall>c' < gm_cols gm.
           getLinearIndex ext r c = getLinearIndex ext r' c' \<longrightarrow> r = r' \<and> c = c'))"


text \<open>The state after the loop of \<open>runSlidingWindowDetector\<close>, before the erosion.\<close>

definition scanned :: "externals \<Rightarrow> parameters \<Rightarrow> grid_map \<Rightarrow> extractor \<Rightarrow> extractor" where
  "scanned ext p gm e = slidingWindowScan ext p gm (initExtraction ext gm e)"

text \<open>The sums, the support vector and the normal that the loop over a plane's indices computes.\<close>

definition planeSums :: "point_with_normal list \<Rightarrow> nat list \<Rightarrow> vec3 \<times> mat3" where
  "planeSums pts q =
     foldl (\<lambda>(s, sq) index. (vadd s (fst (pts ! index)),
                               madd sq (outer (fst (pts ! index)) (fst (pts ! index)))))
       (Zero3, ZeroM) q"

definition planeSupport :: "point_with_normal list \<Rightarrow> nat list \<Rightarrow> vec3" where
  "planeSupport pts q = vdiv (fst (planeSums pts q)) (real (length q))"

definition planeNormal :: "externals \<Rightarrow> point_with_normal list \<Rightarrow> nat list \<Rightarrow> vec3" where
  "planeNormal ext pts q =
     fst (normalAndErrorFromCovariance (solver ext) (length q) (planeSupport pts q)
            (snd (planeSums pts q)))"

definition planeAccepted :: "externals \<Rightarrow> parameters \<Rightarrow> point_with_normal list \<Rightarrow> nat list \<Rightarrow> bool" where
  "planeAccepted ext p pts q =
     (angleBetweenNormalizedVectorsInDegrees (planeNormal ext pts q) UnitZ
        < plane_inclination_threshold_degrees p)"

text \<open>The entries that the loop appends for a list of planes paired with their labels.\<close>

definition planeEntries ::
  "externals \<Rightarrow> parameters \<Rightarrow> point_with_normal list \<Rightarrow> (int \<times> nat list) list
   \<Rightarrow> (int \<times> terrain_plane) list" where
  "planeEntries ext p pts lqs =
     map (\<lambda>(l, q). (l, (planeSupport pts q, orientation ext (planeNormal ext pts q))))
       (filter (\<lambda>(l, q). planeAccepted ext p pts q) lqs)"

text \<open>The writes of the loop into the labelled image, for one plane and for a list of planes.\<close>

definition relabelPlane ::
  "externals \<Rightarrow> point_with_normal list \<Rightarrow> int \<Rightarrow> int \<Rightarrow> int cvmat \<Rightarrow> nat list \<Rightarrow> int cvmat" where
  "relabelPlane ext pts label newLabel img q =
     foldl (\<lambda>img index. if newLabel \<noteq> label then setAt img (cellOf ext pts index) newLabel else img)
       img q"

definition relabelPlanes ::
  "externals \<Rightarrow> point_with_normal list \<Rightarrow> int \<Rightarrow> int cvmat \<Rightarrow> (int \<times> nat list) list \<Rightarrow> int cvmat" where
  "relabelPlanes ext pts label img lqs =
     foldl (\<lambda>img (l, q). relabelPlane ext pts label l img q) img lqs"

text \<open>
  The values that \<open>newLabel\<close> takes in the loop of \<open>refineLabelWithRansac\<close> over \<open>n\<close>
  planes, when \<open>highestLabel\<close> is \<open>h\<close> before the loop: the label of the region for the
  first plane, then \<open>h + 1\<close>, \<open>h + 2\<close>, and so on.
\<close>

definition refinedLabels :: "int \<Rightarrow> int \<Rightarrow> nat \<Rightarrow> int list" where
  "refinedLabels label h n = (if n = 0 then [] else label # [h + 1..h + int n - 1])"

subsection \<open>Concrete collaborators and inputs\<close>

text \<open>
  The closed examples below run the extractor on a 4 \<times> 4 map whose heights alternate
  between 1/10 and -1/10 like a chess board, with resolution 1, kernel size 3 and no
  erosion. The collaborators are instantiated as follows. \<open>diagSolver\<close> decomposes a
  diagonal matrix: it orders the diagonal entries and returns the matching axes
  (\<open>diagSolver_eigen\<close> below); every covariance matrix of the examples is diagonal.
  \<open>oneComponent\<close> labels every set pixel 1, which is the connected-component labelling of
  an image whose set pixels are connected. \<open>singletonDetector\<close> reverses the points and
  reports the first two as planes of one point each and the others as unassigned.
  \<open>nearestIndex\<close> is the cell whose position is nearest, for the origin (0, 0) and the
  resolution 1. The linear index is \<open>row + col * 4\<close>.
\<close>

definition order3 ::
  "real \<times> vec3 \<Rightarrow> real \<times> vec3 \<Rightarrow> real \<times> vec3
   \<Rightarrow> (real \<times> vec3) \<times> (real \<times> vec3) \<times> (real \<times> vec3)" where
  "order3 p q r =
     (if fst p \<le> fst q
      then (if fst q \<le> fst r then (p, q, r) else if fst p \<le> fst r then (p, r, q) else (r, p, q))
      else (if fst p \<le> fst r then (q, p, r) else if fst q \<le> fst r then (q, r, p) else (r, q, p)))"

definition fromCols :: "vec3 \<Rightarrow> vec3 \<Rightarrow> vec3 \<Rightarrow> mat3" where
  "fromCols v0 v1 v2 = ((vx v0, vx v1, vx v2), (vy v0, vy v1, vy v2), (vz v0, vz v1, vz v2))"

definition diagSolver :: eigensolver where
  "diagSolver m =
     (case m of (r0, r1, r2) \<Rightarrow>
        (case order3 (vx r0, (1, 0, 0)) (vy r1, (0, 1, 0)) (vz r2, (0, 0, 1)) of
           ((k0, v0), (k1, v1), (k2, v2)) \<Rightarrow> ((k0, k1, k2), fromCols v0 v1 v2)))"

definition checkerMap :: grid_map where
  "checkerMap =
     \<lparr>gm_rows = 4, gm_cols = 4, gm_resolution = 1, gm_origin = (0, 0),
      gm_elevation = (\<lambda>(row, col). if row < 4 \<and> col < 4
                                   then Some (if even (row + col) then 1 / 10 else - (1 / 10))
                                   else None)\<rparr>"

definition oneComponent :: "bool cvmat \<Rightarrow> int \<Rightarrow> int \<times> int cvmat" where
  "oneComponent img conn =
     (if list_ex (mat_at img) (allCells (mat_rows img) (mat_cols img)) then 2 else 1,
      \<lparr>mat_rows = mat_rows img, mat_cols = mat_cols img,
       mat_at = (\<lambda>index. if mat_at img index then 1 else 0)\<rparr>)"

definition singletonDetector :: "point_with_normal list \<Rightarrow> ransac_result" where
  "singletonDetector pts =
     \<lparr>rr_points = rev pts,
      rr_planes = map (\<lambda>i. [i]) [0..<min 2 (length pts)],
      rr_unassigned = [2..<length pts]\<rparr>"

definition nearestIndex :: "real \<times> real \<Rightarrow> nat \<times> nat" where
  "nearestIndex pos = (nat \<lfloor>1 / 2 - fst pos\<rfloor>, nat \<lfloor>1 / 2 - snd pos\<rfloor>)"

definition testExternals :: externals where
  "testExternals =
     \<lparr>solver = diagSolver, erodeCross = (\<lambda>n img. img), connectedComponents = oneComponent,
      detectPlanes = singletonDetector, getIndex = nearestIndex,
      orientation = (\<lambda>n. ((1, 0, 0), (0, 1, 0), n)),
      getLinearIndex = (\<lambda>row col. row + col * 4), freshStorage = (7, 7, 7)\<rparr>"

definition testParameters :: "bool \<Rightarrow> parameters" where
  "testParameters refine =
     \<lparr>kernel_size = 3, planarity_erosion = 0, plane_inclination_threshold_degrees = 30,
      plane_patch_error_threshold = 1, min_number_points_per_label = 4, connectivity = 4,
      include_ransac_refinement = refine, global_plane_fit_distance_error_threshold = 1 / 100,
      global_plane_fit_angle_error_threshold_degrees = 30\<rparr>"

text \<open>An extractor that has not run yet: the buffer of normals is empty.\<close>

definition freshExtractor :: extractor where
  "freshExtractor =
     \<lparr>segmentedPlanesMap =
        \<lparr>resolution = 0, mapOrigin = (0, 0), highestLabel = 0,
         labeledImage = \<lparr>mat_rows = 0, mat_cols = 0, mat_at = (\<lambda>index. 0)\<rparr>,
         labelPlaneParameters = []\<rparr>,
      binaryImagePatch = \<lparr>mat_rows = 0, mat_cols = 0, mat_at = (\<lambda>index. False)\<rparr>,
      surfaceNormals = \<lparr>nb_size = 0, nb_storage = []\<rparr>\<rparr>"

text \<open>A window with two finite heights, and one whose three finite heights lie on a line.\<close>

definition twoSamples :: window where
  "twoSamples = (\<lambda>cell. if cell = (0, 0) then Some 1 else if cell = (1, 1) then Some 2 else None)"

text \<open>
  The 3 \<times> 3 neighbourhood of the corner cell (0, 0) of the example map, with the cells
  outside the map skipped.
\<close>

definition cornerWindow :: window where
  "cornerWindow =
     (\<lambda>(kernel_row, kernel_col).
        if 1 \<le> kernel_row \<and> 1 \<le> kernel_col
        then gm_elevation checkerMap (kernel_row - 1, kernel_col - 1) else None)"

definition threeInLine :: window where
  "threeInLine = (\<lambda>cell. if snd cell = 0 \<and> fst cell < 3 then Some 0 else None)"


text \<open>
  The example run up to the segmentation, and the points collected for its only region,
  label 1.
\<close>

definition checkerSegmented :: "bool \<Rightarrow> extractor" where
  "checkerSegmented refine = segmented testExternals (testParameters refine) checkerMap freshExtractor"

definition checkerRegion :: "point_with_normal list" where
  "checkerRegion =
     snd (collectPoints testExternals checkerMap (surfaceNormals (checkerSegmented True)) 1
            (segmentedPlanesMap (checkerSegmented True)))"

text \<open>
  The number of points that \<open>computePlaneParametersForLabel\<close> collects for a label,
  their centroid, the normal fitted to them, and the outcome of \<open>isGloballyPlanar\<close> for
  that fit.
\<close>

definition regionCount ::
  "externals \<Rightarrow> grid_map \<Rightarrow> normal_buffer \<Rightarrow> int \<Rightarrow> segmented_planes_map \<Rightarrow> nat" where
  "regionCount ext gm normals label spm = fst (fst (collectPoints ext gm normals label spm))"

definition regionSupport ::
  "externals \<Rightarrow> grid_map \<Rightarrow> normal_buffer \<Rightarrow> int \<Rightarrow> segmented_planes_map \<Rightarrow> vec3" where
  "regionSupport ext gm normals label spm =
     vdiv (fst (snd (fst (collectPoints ext gm normals label spm))))
       (real (regionCount ext gm normals label spm))"

definition regionNormal ::
  "externals \<Rightarrow> grid_map \<Rightarrow> normal_buffer \<Rightarrow> int \<Rightarrow> segmented_planes_map \<Rightarrow> vec3" where
  "regionNormal ext gm normals label spm =
     fst (normalAndErrorFromCovariance (solver ext) (regionCount ext gm normals label spm)
            (regionSupport ext gm normals label spm)
            (snd (snd (fst (collectPoints ext gm normals label spm)))))"

definition regionGloballyPlanar ::
  "externals \<Rightarrow> parameters \<Rightarrow> grid_map \<Rightarrow> normal_buffer \<Rightarrow> int \<Rightarrow> segmented_planes_map \<Rightarrow> bool" where
  "regionGloballyPlanar ext p gm normals label spm =
     isGloballyPlanar p (regionNormal ext gm normals label spm)
       (regionSupport ext gm normals label spm) (snd (collectPoints ext gm normals label spm))"

text \<open>
  The state of a run after the loop of \<open>extractPlaneParametersFromLabeledImage\<close> has
  processed the labels 1 to \<open>k\<close>; for \<open>k = 0\<close> it is the state after the segmentation.
\<close>

definition stateAfter ::
  "externals \<Rightarrow> parameters \<Rightarrow> grid_map \<Rightarrow> extractor \<Rightarrow> int \<Rightarrow> segmented_planes_map" where
  "stateAfter ext p gm e k =
     extractLoop ext p gm (surfaceNormals (segmented ext p gm e)) 1 k
       (segmentedPlanesMap (segmented ext p gm e))"

text \<open>
  What the background property asks of the collaborators: the erosion sets no pixel;
  the labelling gives a label other than 0 to set pixels only; the detector hands back
  points that it was given, and its planes claim indices of that point vector; the
  lookup finds every cell of finite height from the position of the cell.
\<close>

definition erosionShrinks :: "externals \<Rightarrow> bool" where
  "erosionShrinks ext = (\<forall>n img x. mat_at (erodeCross ext n img) x \<longrightarrow> mat_at img x)"

definition labelsInsideMask :: "externals \<Rightarrow> bool" where
  "labelsInsideMask ext =
     (\<forall>img conn x. mat_at (snd (connectedComponents ext img conn)) x \<noteq> 0 \<longrightarrow> mat_at img x)"

definition detectorKeepsPoints :: "externals \<Rightarrow> bool" where
  "detectorKeepsPoints ext =
     (\<forall>pts. set (rr_points (detectPlanes ext pts)) \<subseteq> set pts \<and>
            (\<forall>q \<in> set (rr_planes (detectPlanes ext pts)). \<forall>i \<in> set q.
               i < length (rr_points (detectPlanes ext pts))))"

definition lookupFindsCell :: "externals \<Rightarrow> grid_map \<Rightarrow> bool" where
  "lookupFindsCell ext gm =
     (\<forall>index h. gm_elevation gm index = Some h \<longrightarrow>
        getIndex ext (fst (gm_origin gm) - real (fst index) * gm_resolution gm,
                      snd (gm_origin gm) - real (snd index) * gm_resolution gm) = index)"

text \<open>
  The example map with a hole: the height of the inner cell (2, 2) is not finite. The
  region of label 1 then has three cells, so the example run on this map takes a
  minimum of three points for a region.
\<close>

definition holeMap :: grid_map where
  "holeMap = checkerMap\<lparr>gm_elevation := (gm_elevation checkerMap)((2, 2) := None)\<rparr>"

definition holeParameters :: parameters where
  "holeParameters = (testParameters True)\<lparr>min_number_points_per_label := 3\<rparr>"

text \<open>
  A region whose heights alternate between 1 and -1, and a detector that reports all
  the points it is given as one plane. The covariance matrix of the four points is
  diagonal with the entries 1/4, 1/4 and 1, so the eigenvectors of its smallest
  eigenvalue are horizontal.
\<close>

definition tallRegion :: "point_with_normal list" where
  "tallRegion =
     [((- 1, - 1, 1), (0, 0, 1)), ((- 2, - 1, - 1), (0, 0, 1)),
      ((- 1, - 2, - 1), (0, 0, 1)), ((- 2, - 2, 1), (0, 0, 1))]"

definition wholeDetector :: "point_with_normal list \<Rightarrow> ransac_result" where
  "wholeDetector pts =
     \<lparr>rr_points = pts, rr_planes = (if pts = [] then [] else [[0..<length pts]]),
      rr_unassigned = []\<rparr>"

definition wholeExternals :: externals where
  "wholeExternals = testExternals\<lparr>detectPlanes := wholeDetector\<rparr>"

text \<open>
  Whether \<open>computePlaneParametersForLabel\<close> hands the region of a label to
  \<open>refineLabelWithRansac\<close>, and what the detector then reports for the points of the
  region.
\<close>

definition regionRefined ::
  "externals \<Rightarrow> parameters \<Rightarrow> grid_map \<Rightarrow> normal_buffer \<Rightarrow> int \<Rightarrow> segmented_planes_map \<Rightarrow> bool" where
  "regionRefined ext p gm normals label spm =
     (\<not> (int (regionCount ext gm normals label spm) < min_number_points_per_label p \<or>
         regionCount ext gm normals label spm < 3) \<and>
      include_ransac_refinement p \<and> \<not> regionGloballyPlanar ext p gm normals label spm)"

definition regionDetected ::
  "externals \<Rightarrow> grid_map \<Rightarrow> normal_buffer \<Rightarrow> int \<Rightarrow> segmented_planes_map \<Rightarrow> ransac_result" where
  "regionDetected ext gm normals label spm =
     detectPlanes ext (snd (collectPoints ext gm normals label spm))"

text \<open>
  A detector like \<open>singletonDetector\<close> that reports the first three points as planes of
  one point each.
\<close>

definition tripleDetector :: "point_with_normal list \<Rightarrow> ransac_result" where
  "tripleDetector pts =
     \<lparr>rr_points = rev pts,
      rr_planes = map (\<lambda>i. [i]) [0..<min 3 (length pts)],
      rr_unassigned = [3..<length pts]\<rparr>"

definition tripleExternals :: externals where
  "tripleExternals = testExternals\<lparr>detectPlanes := tripleDetector\<rparr>"

section \<open>Properties\<close>

lemma gather_count_aux:
  "fst (foldl (\<lambda>acc (kernel_row, kernel_col).
              case w (kernel_row, kernel_col) of
                None \<Rightarrow> acc
              | Some height \<Rightarrow>
                  accumulate acc (- real kernel_row * res, - real kernel_col * res, height))
           acc0 cells)
   = fst acc0 + length (filter (\<lambda>cell. w cell \<noteq> None) cells)"
proof (induction cells arbitrary: acc0)
  case Nil
  show ?case by simp
next
  case (Cons cell cells)
  obtain r c where cell: "cell = (r, c)" by (cases cell)
  obtain n s q where acc0: "acc0 = (n, s, q)" by (cases acc0)
  show ?case
    by (cases "w (r, c)") (simp_all add: Cons.IH cell acc0)
qed

lemma gatherWindow_count: "fst (gatherWindow res k w) = finiteCount k w"
  by (simp add: gatherWindow_def finiteCount_def gather_count_aux)

subsection \<open>The window normal\<close>

lemma normalAndError_undefined:
  assumes "vy (fst (slv (covarianceMatrix n m q))) \<le> 1 / 10 ^ 8"
  shows "normalAndErrorFromCovariance slv n m q = (UnitZ, 10 ^ 30)"
proof -
  obtain evals evecs where r: "slv (covarianceMatrix n m q) = (evals, evecs)"
    by (cases "slv (covarianceMatrix n m q)")
  from assms r have "\<not> vy evals > 1 / 10 ^ 8" by simp
  then show ?thesis
    unfolding normalAndErrorFromCovariance_def r by (simp del: vy.simps)
qed

lemma finiteCount_twoSamples: "finiteCount 3 twoSamples = 2"
  by (simp add: finiteCount_def kernelCells_def allCells_def upt_rec twoSamples_def)

lemma finiteCount_threeInLine: "finiteCount 3 threeInLine = 3"
  by (simp add: finiteCount_def kernelCells_def allCells_def upt_rec threeInLine_def)

lemma windowCovariance_threeInLine:
  "windowCovariance (1 / 10) 3 threeInLine = ((1 / 150, 0, 0), (0, 0, 0), (0, 0, 0))"
  by (simp add: windowCovariance_def gatherWindow_def kernelCells_def allCells_def upt_rec
      threeInLine_def covarianceMatrix_def Zero3_def ZeroM_def)

text \<open>
  C6. When the window has fewer than three finite heights, or the second-smallest
  eigenvalue of its covariance matrix is at most 1e-8, \<open>computeNormalAndErrorForWindow\<close>
  returns exactly the normal (0, 0, 1) and the error 1e30.
\<close>

theorem window_normal_undefined:
  assumes "finiteCount k w < 3 \<or> vy (fst (slv (windowCovariance res k w))) \<le> 1 / 10 ^ 8"
  shows "computeNormalAndErrorForWindow slv res k w = ((0, 0, 1), 10 ^ 30)"
proof -
  obtain n s q where g: "gatherWindow res k w = (n, s, q)"
    by (cases "gatherWindow res k w")
  have n: "n = finiteCount k w"
    using gatherWindow_count [of res k w] g by simp
  show ?thesis
  proof (cases "n < 3")
    case True
    then show ?thesis by (simp add: computeNormalAndErrorForWindow_def g UnitZ_def)
  next
    case False
    with assms n have "vy (fst (slv (covarianceMatrix n (vdiv s (real n)) q))) \<le> 1 / 10 ^ 8"
      by (simp add: windowCovariance_def g)
    then have "normalAndErrorFromCovariance slv n (vdiv s (real n)) q = (UnitZ, 10 ^ 30)"
      by (rule normalAndError_undefined)
    with False show ?thesis
      by (simp add: computeNormalAndErrorForWindow_def g UnitZ_def)
  qed
qed

text \<open>
  The window with two finite heights, and the window whose three points lie on a line,
  where the eigenvalues are 0, 0 and 1/150.
\<close>

theorem window_normal_undefined_witness:
  "finiteCount 3 twoSamples < 3 \<and>
   computeNormalAndErrorForWindow diagSolver (1 / 10) 3 twoSamples = ((0, 0, 1), 10 ^ 30) \<and>
   \<not> finiteCount 3 threeInLine < 3 \<and>
   vy (fst (diagSolver (windowCovariance (1 / 10) 3 threeInLine))) \<le> 1 / 10 ^ 8 \<and>
   computeNormalAndErrorForWindow diagSolver (1 / 10) 3 threeInLine = ((0, 0, 1), 10 ^ 30)"
  using window_normal_undefined [of 3 twoSamples diagSolver "1 / 10"]
    window_normal_undefined [of 3 threeInLine diagSolver "1 / 10"]
  by (simp add: finiteCount_twoSamples finiteCount_threeInLine windowCovariance_threeInLine
      diagSolver_def order3_def)

subsection \<open>The buffer of normals\<close>

lemma initSurfaceNormals_size: "nb_size (initSurfaceNormals fresh n buf) = nb_size buf"
  by (simp add: initSurfaceNormals_def fill_n_def reserve_def)

lemma initSurfaceNormals_length:
  assumes "nb_size buf \<le> length (nb_storage buf)"
  shows "n \<le> length (nb_storage (initSurfaceNormals fresh n buf))"
  using assms by (simp add: initSurfaceNormals_def fill_n_def reserve_def)


subsection \<open>Folds of updates\<close>

lemma foldl_update_length:
  "length (foldl (\<lambda>st c. if P c then st[f c := g c] else st) st0 cs) = length st0"
  by (induction cs arbitrary: st0) simp_all

lemma foldl_update_other:
  assumes "\<And>c. c \<in> set cs \<Longrightarrow> P c \<Longrightarrow> f c \<noteq> i"
  shows "foldl (\<lambda>st c. if P c then st[f c := g c] else st) st0 cs ! i = st0 ! i"
  using assms by (induction cs arbitrary: st0) simp_all

lemma foldl_update_hit:
  assumes "c \<in> set cs" and "P c" and "f c < length st0"
    and "\<And>c'. c' \<in> set cs \<Longrightarrow> P c' \<Longrightarrow> f c' = f c \<Longrightarrow> g c' = g c"
  shows "foldl (\<lambda>st c. if P c then st[f c := g c] else st) st0 cs ! f c = g c"
  using assms(1,4)
proof (induction cs rule: rev_induct)
  case Nil
  then show ?case by simp
next
  case (snoc x xs)
  let ?F = "\<lambda>st c. if P c then st[f c := g c] else st"
  have len: "length (foldl ?F st0 xs) = length st0"
    by (rule foldl_update_length)
  show ?case
  proof (cases "P x \<and> f x = f c")
    case True
    have "g x = g c" using snoc.prems(2) [of x] True by simp
    with True assms(3) len show ?thesis by simp
  next
    case False
    then have "c \<noteq> x" using assms(2) by blast
    with snoc.prems(1) have "c \<in> set xs" by simp
    moreover have "\<And>c'. c' \<in> set xs \<Longrightarrow> P c' \<Longrightarrow> f c' = f c \<Longrightarrow> g c' = g c"
      using snoc.prems(2) by simp
    ultimately have "foldl ?F st0 xs ! f c = g c" by (rule snoc.IH)
    with False show ?thesis by (cases "P x") simp_all
  qed
qed

lemma foldl_fun_upd_other:
  "x \<notin> set cs \<Longrightarrow> foldl (\<lambda>h c. h(c := v c)) h0 cs x = h0 x"
  by (induction cs arbitrary: h0) simp_all

lemma foldl_fun_upd_hit:
  "x \<in> set cs \<Longrightarrow> foldl (\<lambda>h c. h(c := v c)) h0 cs x = v x"
  by (induction cs arbitrary: h0 rule: rev_induct) auto

subsection \<open>The scan\<close>

lemma detectorStep_spm: "segmentedPlanesMap (detectorStep ext p gm e c) = segmentedPlanesMap e"
  by (simp add: detectorStep_def Let_def split: option.splits prod.splits)

lemma scan_spm: "segmentedPlanesMap (foldl (detectorStep ext p gm) e cs) = segmentedPlanesMap e"
  by (induction cs arbitrary: e) (simp_all add: detectorStep_spm)

lemma detectorStep_size:
  "nb_size (surfaceNormals (detectorStep ext p gm e c)) = nb_size (surfaceNormals e)"
  by (simp add: detectorStep_def Let_def writeNormal_def split: option.splits prod.splits)

lemma scan_size:
  "nb_size (surfaceNormals (foldl (detectorStep ext p gm) e cs)) = nb_size (surfaceNormals e)"
  by (induction cs arbitrary: e) (simp_all add: detectorStep_size)

lemma detectorStep_normals:
  assumes "resolution (segmentedPlanesMap e) = res"
  shows "nb_storage (surfaceNormals (detectorStep ext p gm e c)) =
      (if centreFinite gm p c
       then (nb_storage (surfaceNormals e))[getLinearIndex ext (fst c) (snd c) :=
                            fst (windowResult ext p gm res c)]
       else nb_storage (surfaceNormals e))"
  using assms
  by (simp add: detectorStep_def centreFinite_def windowResult_def Let_def writeNormal_def
      split: option.splits prod.splits)

lemma scan_normals:
  assumes "resolution (segmentedPlanesMap e) = res"
  shows "nb_storage (surfaceNormals (foldl (detectorStep ext p gm) e cs)) =
   foldl (\<lambda>st c. if centreFinite gm p c
                  then st[getLinearIndex ext (fst c) (snd c) := fst (windowResult ext p gm res c)]
                  else st)
     (nb_storage (surfaceNormals e)) cs"
  using assms
proof (induction cs arbitrary: e)
  case Nil
  show ?case by simp
next
  case (Cons c cs)
  have "resolution (segmentedPlanesMap (detectorStep ext p gm e c)) = res"
    using Cons.prems by (simp add: detectorStep_spm)
  from Cons.IH [OF this] detectorStep_normals [OF Cons.prems] show ?case
    by simp
qed

lemma detectorStep_mask:
  assumes "resolution (segmentedPlanesMap e) = res"
  shows "mat_at (binaryImagePatch (detectorStep ext p gm e c)) =
      (mat_at (binaryImagePatch e))(c := (centreFinite gm p c \<and>
                         isLocallyPlanar p (fst (windowResult ext p gm res c))
                            (snd (windowResult ext p gm res c))))"
  using assms
  by (simp add: detectorStep_def centreFinite_def windowResult_def Let_def setAt_def
      split: option.splits prod.splits)

lemma scan_mask:
  assumes "resolution (segmentedPlanesMap e) = res"
  shows "mat_at (binaryImagePatch (foldl (detectorStep ext p gm) e cs)) =
   foldl (\<lambda>h c. h(c := (centreFinite gm p c \<and>
                         isLocallyPlanar p (fst (windowResult ext p gm res c))
                            (snd (windowResult ext p gm res c)))))
     (mat_at (binaryImagePatch e)) cs"
  using assms
proof (induction cs arbitrary: e)
  case Nil
  show ?case by simp
next
  case (Cons c cs)
  have "resolution (segmentedPlanesMap (detectorStep ext p gm e c)) = res"
    using Cons.prems by (simp add: detectorStep_spm)
  from Cons.IH [OF this] detectorStep_mask [OF Cons.prems] show ?case
    by simp
qed

lemma centreFinite_inside:
  assumes "dataInsideMap gm (kernelMiddle p) index"
  shows "centreFinite gm p index = (gm_elevation gm index \<noteq> None)"
  using assms by (simp add: centreFinite_def getData_def dataInsideMap_def)

lemma set_allCells: "set (allCells n m) = {(r, c). r < n \<and> c < m}"
  by (auto simp: allCells_def)

lemma set_windowIndices:
  "set (windowIndices gm (kernel_size p)) =
   {index. fst index < gm_rows gm \<and> snd index < gm_cols gm \<and> dataInsideMap gm (kernelMiddle p) index}"
  by (auto simp: windowIndices_def set_allCells kernelMiddle_def)

lemma dataInsideMap_in_map:
  "dataInsideMap gm m index \<Longrightarrow> fst index < gm_rows gm \<and> snd index < gm_cols gm"
  by (simp add: dataInsideMap_def)

lemma init_resolution: "resolution (segmentedPlanesMap (initExtraction ext gm e)) = gm_resolution gm"
  by (simp add: initExtraction_def)

lemma init_mask: "mat_at (binaryImagePatch (initExtraction ext gm e)) index = False"
  by (simp add: initExtraction_def)

lemma init_normals:
  "surfaceNormals (initExtraction ext gm e) =
   initSurfaceNormals (freshStorage ext) (gm_rows gm * gm_cols gm) (surfaceNormals e)"
  by (simp add: initExtraction_def)

lemma scanned_normals:
  "nb_storage (surfaceNormals (scanned ext p gm e)) =
   foldl (\<lambda>st c. if centreFinite gm p c
                  then st[getLinearIndex ext (fst c) (snd c) :=
                            fst (windowResult ext p gm (gm_resolution gm) c)]
                  else st)
     (nb_storage (surfaceNormals (initExtraction ext gm e))) (windowIndices gm (kernel_size p))"
  unfolding scanned_def slidingWindowScan_def
  by (rule scan_normals) (rule init_resolution)

lemma scanned_mask:
  "mat_at (binaryImagePatch (scanned ext p gm e)) =
   foldl (\<lambda>h c. h(c := (centreFinite gm p c \<and>
                         isLocallyPlanar p (fst (windowResult ext p gm (gm_resolution gm) c))
                            (snd (windowResult ext p gm (gm_resolution gm) c)))))
     (mat_at (binaryImagePatch (initExtraction ext gm e))) (windowIndices gm (kernel_size p))"
  unfolding scanned_def slidingWindowScan_def
  by (rule scan_mask) (rule init_resolution)

text \<open>A cell with a full window: its entry of the buffer after the scan.\<close>

lemma scanned_normal_inside:
  assumes len: "gm_rows gm * gm_cols gm \<le> length (nb_storage (surfaceNormals (initExtraction ext gm e)))"
    and inj: "\<And>r c r' c'. r < gm_rows gm \<Longrightarrow> c < gm_cols gm \<Longrightarrow> r' < gm_rows gm \<Longrightarrow> c' < gm_cols gm \<Longrightarrow>
                getLinearIndex ext r c = getLinearIndex ext r' c' \<Longrightarrow> r = r' \<and> c = c'"
    and bound: "\<And>r c. r < gm_rows gm \<Longrightarrow> c < gm_cols gm \<Longrightarrow>
                getLinearIndex ext r c < gm_rows gm * gm_cols gm"
    and inside: "dataInsideMap gm (kernelMiddle p) (row, col)"
    and fin: "gm_elevation gm (row, col) \<noteq> None"
  shows "readNormal (surfaceNormals (scanned ext p gm e)) (getLinearIndex ext row col) =
         fst (windowResult ext p gm (gm_resolution gm) (row, col))"
proof -
  let ?f = "\<lambda>c. getLinearIndex ext (fst c) (snd c)"
  let ?g = "\<lambda>c. fst (windowResult ext p gm (gm_resolution gm) c)"
  let ?cs = "windowIndices gm (kernel_size p)"
  let ?st0 = "nb_storage (surfaceNormals (initExtraction ext gm e))"
  from inside have rc: "row < gm_rows gm" "col < gm_cols gm"
    using dataInsideMap_in_map [of gm "kernelMiddle p" "(row, col)"] by simp_all
  have mem: "(row, col) \<in> set ?cs"
    using inside rc by (simp add: set_windowIndices)
  have P: "centreFinite gm p (row, col)"
    using inside fin by (simp add: centreFinite_inside)
  have lt: "?f (row, col) < length ?st0"
    using bound [OF rc] len by simp
  have same: "?g c' = ?g (row, col)"
    if "c' \<in> set ?cs" "centreFinite gm p c'" "?f c' = ?f (row, col)" for c'
  proof -
    from that(1) have "fst c' < gm_rows gm" "snd c' < gm_cols gm"
      by (simp_all add: set_windowIndices)
    from inj [OF this rc] that(3) have "c' = (row, col)"
      by (cases c') simp
    then show ?thesis by simp
  qed
  have "foldl (\<lambda>st c. if centreFinite gm p c then st[?f c := ?g c] else st) ?st0 ?cs ! ?f (row, col)
        = ?g (row, col)"
    using mem P lt same by (rule foldl_update_hit)
  then show ?thesis
    by (simp add: readNormal_def scanned_normals)
qed

lemma scanned_normal_outside:
  assumes inj: "\<And>r c r' c'. r < gm_rows gm \<Longrightarrow> c < gm_cols gm \<Longrightarrow> r' < gm_rows gm \<Longrightarrow> c' < gm_cols gm \<Longrightarrow>
                getLinearIndex ext r c = getLinearIndex ext r' c' \<Longrightarrow> r = r' \<and> c = c'"
    and rc: "row < gm_rows gm" "col < gm_cols gm"
    and outside: "\<not> (dataInsideMap gm (kernelMiddle p) (row, col) \<and> gm_elevation gm (row, col) \<noteq> None)"
  shows "readNormal (surfaceNormals (scanned ext p gm e)) (getLinearIndex ext row col) =
         readNormal (surfaceNormals (initExtraction ext gm e)) (getLinearIndex ext row col)"
proof -
  let ?f = "\<lambda>c. getLinearIndex ext (fst c) (snd c)"
  let ?g = "\<lambda>c. fst (windowResult ext p gm (gm_resolution gm) c)"
  let ?cs = "windowIndices gm (kernel_size p)"
  let ?st0 = "nb_storage (surfaceNormals (initExtraction ext gm e))"
  have other: "?f c' \<noteq> getLinearIndex ext row col"
    if "c' \<in> set ?cs" "centreFinite gm p c'" for c'
  proof
    assume eq: "?f c' = getLinearIndex ext row col"
    from that(1) have c': "fst c' < gm_rows gm" "snd c' < gm_cols gm"
      and ins: "dataInsideMap gm (kernelMiddle p) c'"
      by (simp_all add: set_windowIndices)
    from inj [OF c' rc] eq have "c' = (row, col)"
      by (cases c') simp
    with ins that(2) outside show False
      by (simp add: centreFinite_inside)
  qed
  have "foldl (\<lambda>st c. if centreFinite gm p c then st[?f c := ?g c] else st) ?st0 ?cs
          ! getLinearIndex ext row col = ?st0 ! getLinearIndex ext row col"
    using other by (rule foldl_update_other)
  then show ?thesis
    by (simp add: readNormal_def scanned_normals)
qed

lemma scanned_mask_inside:
  assumes inside: "dataInsideMap gm (kernelMiddle p) (row, col)"
  shows "mat_at (binaryImagePatch (scanned ext p gm e)) (row, col) =
         (gm_elevation gm (row, col) \<noteq> None \<and>
          isLocallyPlanar p (fst (windowResult ext p gm (gm_resolution gm) (row, col)))
                            (snd (windowResult ext p gm (gm_resolution gm) (row, col))))"
proof -
  from inside have rc: "row < gm_rows gm" "col < gm_cols gm"
    using dataInsideMap_in_map [of gm "kernelMiddle p" "(row, col)"] by simp_all
  have mem: "(row, col) \<in> set (windowIndices gm (kernel_size p))"
    using inside rc by (simp add: set_windowIndices)
  show ?thesis
    unfolding scanned_mask using mem
    by (simp add: foldl_fun_upd_hit centreFinite_inside [OF inside])
qed

lemma scanned_mask_outside:
  assumes "\<not> dataInsideMap gm (kernelMiddle p) index"
  shows "\<not> mat_at (binaryImagePatch (scanned ext p gm e)) index"
proof -
  have "index \<notin> set (windowIndices gm (kernel_size p))"
    using assms by (simp add: set_windowIndices)
  then show ?thesis
    unfolding scanned_mask by (simp add: foldl_fun_upd_other init_mask)
qed


subsection \<open>The normals and the mask after the scan\<close>

lemma run_normals: "surfaceNormals (runExtraction ext p gm e) = surfaceNormals (scanned ext p gm e)"
  by (simp add: runExtraction_def segmented_def runSegmentation_def runSlidingWindowDetector_def
      scanned_def Let_def split: prod.splits)




lemmas fixture_defs = testExternals_def checkerMap_def freshExtractor_def testParameters_def
  diagSolver_def order3_def fromCols_def oneComponent_def singletonDetector_def nearestIndex_def

lemmas model_defs = initExtraction_def initSurfaceNormals_def fill_n_def reserve_def
  computeNormalAndErrorForWindow_def gatherWindow_def kernelCells_def allCells_def
  getData_def Zero3_def ZeroM_def UnitZ_def normalAndErrorFromCovariance_def covarianceMatrix_def
  slidingWindowScan_def detectorStep_def writeNormal_def setAt_def isLocallyPlanar_def
  angleBetweenNormalizedVectorsInDegrees_def runSlidingWindowDetector_def runSegmentation_def
  segmented_def windowIndices_def dataInsideMap_def runExtraction_def extractPlaneParametersFromLabeledImage_def
  computePlaneParametersForLabel_def collectPoints_def collectStep_def readNormal_def emitPlane_def
  refineLabelWithRansac_def resetUnassigned_def cellOf_def kernelMiddle_def scanned_def Let_def
  extractLoop.simps

text \<open>
  C3 fails at the corner cell (0, 0) of the example map: its height is finite and the
  normal fitted to the finite heights of its neighbourhood is (0, 0, 1), but the
  detector never visits the cell. Its entry of the buffer is still the zero vector and
  its mask entry is false.
\<close>

theorem boundary_cell_not_written:
  "gm_elevation checkerMap (0, 0) = Some (1 / 10) \<and>
   fst (computeNormalAndErrorForWindow diagSolver 1 3 cornerWindow) = (0, 0, 1) \<and>
   readNormal (surfaceNormals (scanned testExternals (testParameters False) checkerMap freshExtractor))
     (getLinearIndex testExternals 0 0) = (0, 0, 0) \<and>
   \<not> mat_at (binaryImagePatch (scanned testExternals (testParameters False) checkerMap freshExtractor)) (0, 0)"
  by (simp add: model_defs fixture_defs upt_rec cornerWindow_def)


text \<open>No run changes the size of the buffer: it stays what it was before the first run.\<close>

lemma run_size: "nb_size (surfaceNormals (runExtraction ext p gm e)) = nb_size (surfaceNormals e)"
  by (simp add: run_normals scanned_def slidingWindowScan_def scan_size init_normals
      initSurfaceNormals_size)

text \<open>
  C8. The initialisation calls \<open>reserve\<close>, which does not change \<open>size()\<close>: on a fresh
  extractor and the 4 \<times> 4 example map the size of the buffer is still 0 after the
  initialisation, below the 16 cells of the map, and the detector writes at index 5.
\<close>

theorem buffer_size_after_init:
  "gm_rows checkerMap * gm_cols checkerMap = 16 \<and>
   nb_size (surfaceNormals (initExtraction testExternals checkerMap freshExtractor)) = 0 \<and>
   (1, 1) \<in> set (windowIndices checkerMap (kernel_size (testParameters False))) \<and>
   getLinearIndex testExternals 1 1 = 5"
  by (simp add: model_defs fixture_defs upt_rec)


lemma denseLinearIndex_test: "denseLinearIndex testExternals checkerMap"
  unfolding denseLinearIndex_def testExternals_def checkerMap_def
  by (simp, arith)


lemma diagSolver_eigen:
  assumes "diagSolver ((a, 0, 0), (0, b, 0), (0, 0, c)) = (evals, evecs)"
  shows "vx evals \<le> vy evals \<and> vy evals \<le> vz evals \<and>
         mvmul ((a, 0, 0), (0, b, 0), (0, 0, c)) (col0 evecs) = vscale (vx evals) (col0 evecs)"
  using assms by (auto simp: diagSolver_def order3_def fromCols_def split: if_splits)

text \<open>
  C3, as amended. For a cell of the map whose own height is finite and whose K \<times> K window
  lies entirely inside the map, the loop of the detector writes the normal that
  \<open>computeNormalAndErrorForWindow\<close> computes from the finite heights of the window into
  the buffer of normals, and writes the mask entry of the cell. A cell whose window runs
  outside the map is not visited: its entry of the buffer is the one the initialisation
  left, and its mask entry is false.
\<close>

theorem detector_writes_full_windows:
  assumes wf: "nb_size (surfaceNormals e) \<le> length (nb_storage (surfaceNormals e))"
    and dense: "denseLinearIndex ext gm"
    and rc: "row < gm_rows gm" "col < gm_cols gm"
  shows "(dataInsideMap gm (kernelMiddle p) (row, col) \<and> gm_elevation gm (row, col) \<noteq> None \<longrightarrow>
            readNormal (surfaceNormals (scanned ext p gm e)) (getLinearIndex ext row col) =
              fst (windowResult ext p gm (gm_resolution gm) (row, col)) \<and>
            mat_at (binaryImagePatch (scanned ext p gm e)) (row, col) =
              isLocallyPlanar p (fst (windowResult ext p gm (gm_resolution gm) (row, col)))
                (snd (windowResult ext p gm (gm_resolution gm) (row, col)))) \<and>
         (\<not> dataInsideMap gm (kernelMiddle p) (row, col) \<longrightarrow>
            readNormal (surfaceNormals (scanned ext p gm e)) (getLinearIndex ext row col) =
              readNormal (surfaceNormals (initExtraction ext gm e)) (getLinearIndex ext row col) \<and>
            \<not> mat_at (binaryImagePatch (scanned ext p gm e)) (row, col))"
proof -
  have inj: "\<And>r c r' c'. r < gm_rows gm \<Longrightarrow> c < gm_cols gm \<Longrightarrow> r' < gm_rows gm \<Longrightarrow> c' < gm_cols gm \<Longrightarrow>
                getLinearIndex ext r c = getLinearIndex ext r' c' \<Longrightarrow> r = r' \<and> c = c'"
    using dense unfolding denseLinearIndex_def by blast
  have bound: "\<And>r c. r < gm_rows gm \<Longrightarrow> c < gm_cols gm \<Longrightarrow>
                getLinearIndex ext r c < gm_rows gm * gm_cols gm"
    using dense unfolding denseLinearIndex_def by blast
  have len: "gm_rows gm * gm_cols gm \<le> length (nb_storage (surfaceNormals (initExtraction ext gm e)))"
    unfolding init_normals using wf by (rule initSurfaceNormals_length)
  show ?thesis
  proof (intro conjI impI)
    assume a: "dataInsideMap gm (kernelMiddle p) (row, col) \<and> gm_elevation gm (row, col) \<noteq> None"
    then have ins: "dataInsideMap gm (kernelMiddle p) (row, col)"
      and fin: "gm_elevation gm (row, col) \<noteq> None" by simp_all
    from len inj bound ins fin
    show "readNormal (surfaceNormals (scanned ext p gm e)) (getLinearIndex ext row col) =
              fst (windowResult ext p gm (gm_resolution gm) (row, col))"
      by (rule scanned_normal_inside)
    show "mat_at (binaryImagePatch (scanned ext p gm e)) (row, col) =
              isLocallyPlanar p (fst (windowResult ext p gm (gm_resolution gm) (row, col)))
                (snd (windowResult ext p gm (gm_resolution gm) (row, col)))"
      using fin by (simp add: scanned_mask_inside [OF ins])
  next
    assume out: "\<not> dataInsideMap gm (kernelMiddle p) (row, col)"
    then have "\<not> (dataInsideMap gm (kernelMiddle p) (row, col) \<and> gm_elevation gm (row, col) \<noteq> None)"
      by simp
    with inj rc
    show "readNormal (surfaceNormals (scanned ext p gm e)) (getLinearIndex ext row col) =
              readNormal (surfaceNormals (initExtraction ext gm e)) (getLinearIndex ext row col)"
      by (rule scanned_normal_outside)
    from out show "\<not> mat_at (binaryImagePatch (scanned ext p gm e)) (row, col)"
      by (rule scanned_mask_outside)
  qed
qed

lemma freshExtractor_wf:
  "nb_size (surfaceNormals freshExtractor) \<le> length (nb_storage (surfaceNormals freshExtractor))"
  by (simp add: freshExtractor_def)

theorem detector_writes_full_windows_witness:
  "dataInsideMap checkerMap (kernelMiddle (testParameters False)) (2, 2) \<and>
   gm_elevation checkerMap (2, 2) \<noteq> None \<and>
   readNormal (surfaceNormals (scanned testExternals (testParameters False) checkerMap freshExtractor)) 10
     = (0, 0, 1) \<and>
   mat_at (binaryImagePatch (scanned testExternals (testParameters False) checkerMap freshExtractor)) (2, 2) \<and>
   \<not> dataInsideMap checkerMap (kernelMiddle (testParameters False)) (0, 0) \<and>
   readNormal (surfaceNormals (scanned testExternals (testParameters False) checkerMap freshExtractor)) 0
     = (0, 0, 0) \<and>
   \<not> mat_at (binaryImagePatch (scanned testExternals (testParameters False) checkerMap freshExtractor)) (0, 0)"
proof -
  have r: "(2::nat) < gm_rows checkerMap" "(0::nat) < gm_rows checkerMap"
    and c: "(2::nat) < gm_cols checkerMap" "(0::nat) < gm_cols checkerMap"
    by (simp_all add: checkerMap_def)
  have in22: "dataInsideMap checkerMap (kernelMiddle (testParameters False)) (2, 2)"
    and out00: "\<not> dataInsideMap checkerMap (kernelMiddle (testParameters False)) (0, 0)"
    and fin22: "gm_elevation checkerMap (2, 2) \<noteq> None"
    by (simp_all add: dataInsideMap_def kernelMiddle_def testParameters_def checkerMap_def)
  have w22: "windowResult testExternals (testParameters False) checkerMap (gm_resolution checkerMap) (2, 2)
             = ((0, 0, 1), sqrt (4 / 405))"
    by (simp add: windowResult_def model_defs fixture_defs upt_rec)
  have lp: "isLocallyPlanar (testParameters False) (0, 0, 1) (sqrt (4 / 405))"
    by (simp add: model_defs fixture_defs)
  have i0: "readNormal (surfaceNormals (initExtraction testExternals checkerMap freshExtractor)) 0
              = (0, 0, 0)"
    by (simp add: model_defs fixture_defs)
  have l: "getLinearIndex testExternals 2 2 = 10" "getLinearIndex testExternals 0 0 = 0"
    by (simp_all add: testExternals_def)
  from detector_writes_full_windows [OF freshExtractor_wf denseLinearIndex_test r(1) c(1), of "testParameters False"]
    detector_writes_full_windows [OF freshExtractor_wf denseLinearIndex_test r(2) c(2), of "testParameters False"]
    in22 out00 fin22
  show ?thesis
    by (simp add: w22 lp i0 l)
qed




subsection \<open>The refinement as a whole\<close>

lemma planePointStep_fold:
  "foldl (planePointStep ext pts label newLabel) (s, sq, img) q =
   (fst (foldl (\<lambda>(s, sq) index. (vadd s (fst (pts ! index)),
                               madd sq (outer (fst (pts ! index)) (fst (pts ! index))))) (s, sq) q),
    snd (foldl (\<lambda>(s, sq) index. (vadd s (fst (pts ! index)),
                               madd sq (outer (fst (pts ! index)) (fst (pts ! index))))) (s, sq) q),
    foldl (\<lambda>img index. if newLabel \<noteq> label then setAt img (cellOf ext pts index) newLabel else img)
       img q)"
  by (induction q arbitrary: s sq img) (simp_all add: Let_def)

lemma planePointStep_result:
  "foldl (planePointStep ext pts label newLabel) (Zero3, ZeroM, img) q =
   (fst (planeSums pts q), snd (planeSums pts q), relabelPlane ext pts label newLabel img q)"
  by (simp add: planePointStep_fold planeSums_def relabelPlane_def)

lemma emitPlane_simps:
  "highestLabel (emitPlane ext p l sv nv spm) = highestLabel spm"
  "labeledImage (emitPlane ext p l sv nv spm) = labeledImage spm"
  "resolution (emitPlane ext p l sv nv spm) = resolution spm"
  "mapOrigin (emitPlane ext p l sv nv spm) = mapOrigin spm"
  by (simp_all add: emitPlane_def)

text \<open>One pass of the loop over the planes.\<close>

lemma refinePlanes_Cons:
  "refinePlanes ext p label pts reuse (q # planes) spm =
   (let newLabel = (if reuse then label else highestLabel spm + 1)
    in refinePlanes ext p label pts False planes
         (spm\<lparr>highestLabel := (if reuse then highestLabel spm else highestLabel spm + 1),
              labeledImage := relabelPlane ext pts label newLabel (labeledImage spm) q,
              labelPlaneParameters :=
                labelPlaneParameters spm @ planeEntries ext p pts [(newLabel, q)]\<rparr>))"
  by (simp add: Let_def planePointStep_result emitPlane_def planeEntries_def planeAccepted_def
      planeNormal_def planeSupport_def)

lemma refinePlanes_False:
  "refinePlanes ext p label pts False planes spm =
   spm\<lparr>highestLabel := highestLabel spm + int (length planes),
       labeledImage :=
         relabelPlanes ext pts label (labeledImage spm)
           (zip [highestLabel spm + 1..highestLabel spm + int (length planes)] planes),
       labelPlaneParameters :=
         labelPlaneParameters spm @
         planeEntries ext p pts
           (zip [highestLabel spm + 1..highestLabel spm + int (length planes)] planes)\<rparr>"
proof (induction planes arbitrary: spm)
  case Nil
  show ?case by (simp add: relabelPlanes_def planeEntries_def)
next
  case (Cons q planes)
  have up: "[highestLabel spm + 1..highestLabel spm + int (length (q # planes))] =
        (highestLabel spm + 1) # [highestLabel spm + 1 + 1..highestLabel spm + 1 + int (length planes)]"
    by (simp add: upto_rec1 add.commute add.left_commute)
  show ?case
    unfolding refinePlanes_Cons up
    by (simp add: Cons.IH Let_def relabelPlanes_def planeEntries_def add.assoc)
qed

lemma relabelPlane_same: "relabelPlane ext pts label label img q = img"
  by (induction q) (simp_all add: relabelPlane_def)

lemma planeEntries_Cons:
  "planeEntries ext p pts (lq # lqs) = planeEntries ext p pts [lq] @ planeEntries ext p pts lqs"
  by (simp add: planeEntries_def)

lemma relabelPlanes_Cons:
  "relabelPlanes ext pts label img ((l, q) # lqs) =
   relabelPlanes ext pts label (relabelPlane ext pts label l img q) lqs"
  by (simp add: relabelPlanes_def)

lemma refinePlanes_True:
  "refinePlanes ext p label pts True planes spm =
   spm\<lparr>highestLabel := highestLabel spm + int (length planes - 1),
       labeledImage :=
         relabelPlanes ext pts label (labeledImage spm)
           (zip (refinedLabels label (highestLabel spm) (length planes)) planes),
       labelPlaneParameters :=
         labelPlaneParameters spm @
         planeEntries ext p pts (zip (refinedLabels label (highestLabel spm) (length planes)) planes)\<rparr>"
proof (cases planes)
  case Nil
  then show ?thesis by (simp add: refinedLabels_def relabelPlanes_def planeEntries_def)
next
  case (Cons q qs)
  have "planeEntries ext p pts ((label, q) # zip [highestLabel spm + 1..highestLabel spm + int (length qs)] qs)
      = planeEntries ext p pts [(label, q)] @
        planeEntries ext p pts (zip [highestLabel spm + 1..highestLabel spm + int (length qs)] qs)"
    by (rule planeEntries_Cons)
  then show ?thesis
    unfolding Cons refinePlanes_Cons
    by (simp add: refinePlanes_False refinedLabels_def relabelPlanes_Cons relabelPlane_same)
qed

lemma refineLabelWithRansac_eq:
  "refineLabelWithRansac ext p label pts0 spm =
   spm\<lparr>highestLabel := highestLabel spm + int (length (rr_planes (detectPlanes ext pts0)) - 1),
       labeledImage :=
         resetUnassigned ext (rr_points (detectPlanes ext pts0)) (rr_unassigned (detectPlanes ext pts0))
           (relabelPlanes ext (rr_points (detectPlanes ext pts0)) label (labeledImage spm)
              (zip (refinedLabels label (highestLabel spm) (length (rr_planes (detectPlanes ext pts0))))
                 (rr_planes (detectPlanes ext pts0)))),
       labelPlaneParameters :=
         labelPlaneParameters spm @
         planeEntries ext p (rr_points (detectPlanes ext pts0))
           (zip (refinedLabels label (highestLabel spm) (length (rr_planes (detectPlanes ext pts0))))
              (rr_planes (detectPlanes ext pts0)))\<rparr>"
  by (simp add: refineLabelWithRansac_def Let_def refinePlanes_True)

lemma relabelPlane_at:
  "mat_at (relabelPlane ext pts label l img q) x =
   (if l \<noteq> label \<and> x \<in> cellOf ext pts ` set q then l else mat_at img x)"
proof (induction q arbitrary: img)
  case Nil
  show ?case by (simp add: relabelPlane_def)
next
  case (Cons i q)
  have "relabelPlane ext pts label l img (i # q) =
        relabelPlane ext pts label l
          (if l \<noteq> label then setAt img (cellOf ext pts i) l else img) q"
    by (simp add: relabelPlane_def)
  then show ?case
    by (simp add: Cons.IH setAt_def)
qed

lemma resetUnassigned_at:
  "mat_at (resetUnassigned ext pts un img) x =
   (if x \<in> cellOf ext pts ` set un then 0 else mat_at img x)"
proof (induction un arbitrary: img)
  case Nil
  show ?case by (simp add: resetUnassigned_def)
next
  case (Cons i un)
  have "resetUnassigned ext pts (i # un) img =
        resetUnassigned ext pts un (setAt img (cellOf ext pts i) 0)"
    by (simp add: resetUnassigned_def)
  then show ?case
    by (simp add: Cons.IH setAt_def)
qed

lemma relabelPlanes_other:
  assumes "\<And>l q. (l, q) \<in> set lqs \<Longrightarrow> x \<notin> cellOf ext pts ` set q"
  shows "mat_at (relabelPlanes ext pts label img lqs) x = mat_at img x"
  using assms
proof (induction lqs arbitrary: img)
  case Nil
  show ?case by (simp add: relabelPlanes_def)
next
  case (Cons lq lqs)
  obtain l q where lq: "lq = (l, q)" by (cases lq)
  have "x \<notin> cellOf ext pts ` set q" using Cons.prems [of l q] lq by simp
  moreover have "mat_at (relabelPlanes ext pts label (relabelPlane ext pts label l img q) lqs) x
      = mat_at (relabelPlane ext pts label l img q) x"
  proof (rule Cons.IH)
    fix l' q'
    assume "(l', q') \<in> set lqs"
    then show "x \<notin> cellOf ext pts ` set q'"
      using Cons.prems [of l' q'] by simp
  qed
  ultimately show ?case
    by (simp add: lq relabelPlanes_Cons relabelPlane_at)
qed

lemma relabelPlanes_append:
  "relabelPlanes ext pts label img (a @ b) =
   relabelPlanes ext pts label (relabelPlanes ext pts label img a) b"
  by (simp add: relabelPlanes_def)

text \<open>Every value of the raster after the planes is the old one or a label of a plane.\<close>

lemma relabelPlanes_values:
  "mat_at (relabelPlanes ext pts label img lqs) x = mat_at img x \<or>
   mat_at (relabelPlanes ext pts label img lqs) x \<in> fst ` set lqs"
proof (induction lqs arbitrary: img)
  case Nil
  show ?case by (simp add: relabelPlanes_def)
next
  case (Cons lq lqs)
  obtain l q where lq: "lq = (l, q)" by (cases lq)
  from Cons.IH [of "relabelPlane ext pts label l img q"]
  show ?case
    by (auto simp: lq relabelPlanes_Cons relabelPlane_at split: if_splits)
qed

lemma relabelPlanes_at_nth:
  assumes k: "k < length lqs"
    and x: "x \<in> cellOf ext pts ` set (snd (lqs ! k))"
    and others: "\<And>j. j < length lqs \<Longrightarrow> j \<noteq> k \<Longrightarrow> x \<notin> cellOf ext pts ` set (snd (lqs ! j))"
  shows "mat_at (relabelPlanes ext pts label img lqs) x =
         (if fst (lqs ! k) \<noteq> label then fst (lqs ! k) else mat_at img x)"
proof -
  obtain l q where lq: "lqs ! k = (l, q)" by (cases "lqs ! k")
  have split: "lqs = take k lqs @ (l, q) # drop (Suc k) lqs"
    using id_take_nth_drop [OF k] lq by simp
  have before: "x \<notin> cellOf ext pts ` set q'" if "(l', q') \<in> set (take k lqs)" for l' q'
  proof -
    from that obtain j where j: "j < length (take k lqs)" "take k lqs ! j = (l', q')"
      by (auto simp: in_set_conv_nth)
    then have "j < length lqs" "j \<noteq> k" "lqs ! j = (l', q')" using k by simp_all
    with others [of j] show ?thesis by simp
  qed
  have after: "x \<notin> cellOf ext pts ` set q'" if "(l', q') \<in> set (drop (Suc k) lqs)" for l' q'
  proof -
    from that obtain j where j: "j < length (drop (Suc k) lqs)" "drop (Suc k) lqs ! j = (l', q')"
      by (auto simp: in_set_conv_nth)
    then have "Suc k + j < length lqs" "Suc k + j \<noteq> k" "lqs ! (Suc k + j) = (l', q')" by simp_all
    with others [of "Suc k + j"] show ?thesis by simp
  qed
  have "mat_at (relabelPlanes ext pts label img lqs) x =
        mat_at (relabelPlanes ext pts label
                  (relabelPlane ext pts label l (relabelPlanes ext pts label img (take k lqs)) q)
                  (drop (Suc k) lqs)) x"
    by (subst split) (simp add: relabelPlanes_append relabelPlanes_Cons)
  also have "\<dots> = mat_at (relabelPlane ext pts label l (relabelPlanes ext pts label img (take k lqs)) q) x"
    using after by (rule relabelPlanes_other)
  also have "\<dots> = (if l \<noteq> label then l else mat_at (relabelPlanes ext pts label img (take k lqs)) x)"
    using x lq by (simp add: relabelPlane_at)
  also have "mat_at (relabelPlanes ext pts label img (take k lqs)) x = mat_at img x"
    using before by (rule relabelPlanes_other)
  finally show ?thesis by (simp add: lq)
qed

lemma distinct_concat_nth_disjoint:
  assumes "distinct (concat yss)" and "j < k" and "k < length yss"
  shows "set (yss ! j) \<inter> set (yss ! k) = {}"
  using assms
proof (induction yss arbitrary: j k)
  case Nil
  then show ?case by simp
next
  case (Cons y yss)
  from Cons.prems(2) obtain k' where k': "k = Suc k'" by (cases k) simp_all
  show ?case
  proof (cases j)
    case 0
    have "k' < length yss" using Cons.prems(3) k' by simp
    then have "yss ! k' \<in> set yss" by (rule nth_mem)
    then have "set (yss ! k') \<subseteq> set (concat yss)"
      by auto
    with Cons.prems(1) 0 k' show ?thesis by auto
  next
    case (Suc j')
    with Cons.prems k' have "set (yss ! j') \<inter> set (yss ! k') = {}"
      by (intro Cons.IH) simp_all
    with Suc k' show ?thesis by simp
  qed
qed

lemma distinct_concat_nth_neq:
  assumes "distinct (concat yss)" and "j \<noteq> k" and "j < length yss" and "k < length yss"
  shows "set (yss ! j) \<inter> set (yss ! k) = {}"
proof (cases "j < k")
  case True
  with assms show ?thesis by (simp add: distinct_concat_nth_disjoint)
next
  case False
  with assms have "k < j" by simp
  with assms have "set (yss ! k) \<inter> set (yss ! j) = {}" by (simp add: distinct_concat_nth_disjoint)
  then show ?thesis by blast
qed

lemma length_refinedLabels: "length (refinedLabels label h n) = n"
  by (cases n) (simp_all add: refinedLabels_def)

lemma nth_refinedLabels:
  "k < n \<Longrightarrow> refinedLabels label h n ! k = (if k = 0 then label else h + int k)"
  by (cases k) (simp_all add: refinedLabels_def)

subsection \<open>The bookkeeping of labels in the refinement\<close>

text \<open>
  C1 fails where it says that the first plane is emitted: the detector finds one plane
  in the region above, its fitted normal is horizontal, 90 degrees off the vertical with
  a threshold of 30, and the refinement appends no entry for it.
\<close>

theorem steep_first_plane_not_emitted:
  "rr_planes (detectPlanes wholeExternals tallRegion) = [[0, 1, 2, 3]] \<and>
   covarianceMatrix 4 (planeSupport tallRegion [0, 1, 2, 3]) (snd (planeSums tallRegion [0, 1, 2, 3]))
     = ((1 / 4, 0, 0), (0, 1 / 4, 0), (0, 0, 1)) \<and>
   angleBetweenNormalizedVectorsInDegrees (planeNormal wholeExternals tallRegion [0, 1, 2, 3]) UnitZ = 90 \<and>
   plane_inclination_threshold_degrees (testParameters True) = 30 \<and>
   labelPlaneParameters
     (refineLabelWithRansac wholeExternals (testParameters True) 1 tallRegion
        (segmentedPlanesMap (checkerSegmented True))) = []"
proof -
  have a: "rr_planes (detectPlanes wholeExternals tallRegion) = [[0, 1, 2, 3]]"
    by (simp add: wholeExternals_def wholeDetector_def tallRegion_def upt_rec)
  have b: "covarianceMatrix 4 (planeSupport tallRegion [0, 1, 2, 3]) (snd (planeSums tallRegion [0, 1, 2, 3]))
     = ((1 / 4, 0, 0), (0, 1 / 4, 0), (0, 0, 1))"
    by (simp add: planeSupport_def planeSums_def tallRegion_def covarianceMatrix_def Zero3_def ZeroM_def)
  have c: "angleBetweenNormalizedVectorsInDegrees (planeNormal wholeExternals tallRegion [0, 1, 2, 3]) UnitZ = 90"
    by (simp add: planeNormal_def planeSupport_def planeSums_def tallRegion_def wholeExternals_def
        model_defs fixture_defs)
  have d: "labelPlaneParameters
     (refineLabelWithRansac wholeExternals (testParameters True) 1 tallRegion
        (segmentedPlanesMap (checkerSegmented True))) = []"
    by (simp add: checkerSegmented_def wholeExternals_def wholeDetector_def tallRegion_def
        model_defs fixture_defs upt_rec)
  from a b c d show ?thesis by (simp add: testParameters_def)
qed

text \<open>
  C1, as amended. Let the detector claim pairwise different cells: no index twice, no
  claimed index among the unassigned ones, different points in different cells. Let the
  label of the region be at most \<open>highestLabel\<close>, as it is in the loop over the labels.
  Then \<open>refineLabelWithRansac\<close> gives the first plane the label of the region and leaves
  its cells as they were; it gives the plane at position \<open>k \<ge> 1\<close> the label
  \<open>highestLabel + k\<close>, writes that label into every cell of the plane and raises
  \<open>highestLabel\<close> by one for each such plane; it sets every cell of an unassigned point to
  0. A plane, the first one included, is emitted only when its fitted normal passes the
  inclination test, and then under the label of the plane.
\<close>

theorem refinement_bookkeeping:
  fixes ext :: externals and pts0 :: "point_with_normal list"
  defines "pts \<equiv> rr_points (detectPlanes ext pts0)"
    and "planes \<equiv> rr_planes (detectPlanes ext pts0)"
    and "un \<equiv> rr_unassigned (detectPlanes ext pts0)"
  assumes le: "label \<le> highestLabel spm"
    and dist: "distinct (map (cellOf ext pts) (concat planes @ un))"
  shows "highestLabel (refineLabelWithRansac ext p label pts0 spm) =
           highestLabel spm + int (length planes - 1) \<and>
         labelPlaneParameters (refineLabelWithRansac ext p label pts0 spm) =
           labelPlaneParameters spm @
           planeEntries ext p pts (zip (refinedLabels label (highestLabel spm) (length planes)) planes) \<and>
         (\<forall>k < length planes. \<forall>i \<in> set (planes ! k).
            refinedLabels label (highestLabel spm) (length planes) ! k =
              (if k = 0 then label else highestLabel spm + int k) \<and>
            mat_at (labeledImage (refineLabelWithRansac ext p label pts0 spm)) (cellOf ext pts i) =
              (if k = 0 then mat_at (labeledImage spm) (cellOf ext pts i)
               else highestLabel spm + int k)) \<and>
         (\<forall>i \<in> set un.
            mat_at (labeledImage (refineLabelWithRansac ext p label pts0 spm)) (cellOf ext pts i) = 0)"
proof (intro conjI allI impI ballI)
  let ?labels = "refinedLabels label (highestLabel spm) (length planes)"
  let ?lqs = "zip ?labels planes"
  show "highestLabel (refineLabelWithRansac ext p label pts0 spm) =
           highestLabel spm + int (length planes - 1)"
    by (simp add: refineLabelWithRansac_eq planes_def)
  show "labelPlaneParameters (refineLabelWithRansac ext p label pts0 spm) =
           labelPlaneParameters spm @ planeEntries ext p pts ?lqs"
    by (simp add: refineLabelWithRansac_eq planes_def pts_def)
  have img: "labeledImage (refineLabelWithRansac ext p label pts0 spm) =
        resetUnassigned ext pts un (relabelPlanes ext pts label (labeledImage spm) ?lqs)"
    by (simp add: refineLabelWithRansac_eq planes_def pts_def un_def)
  have len: "length ?lqs = length planes"
    by (simp add: length_refinedLabels)
  have dplanes: "distinct (concat (map (map (cellOf ext pts)) planes))"
    using dist by (simp add: map_concat)
  have dun: "cellOf ext pts ` set (concat planes) \<inter> cellOf ext pts ` set un = {}"
    using dist by auto
  {
    fix i assume "i \<in> set un"
    then show "mat_at (labeledImage (refineLabelWithRansac ext p label pts0 spm)) (cellOf ext pts i) = 0"
      by (simp add: img resetUnassigned_at)
  }
  fix k i assume k: "k < length planes" and i: "i \<in> set (planes ! k)"
  show lab: "?labels ! k = (if k = 0 then label else highestLabel spm + int k)"
    using k by (rule nth_refinedLabels)
  have nth: "?lqs ! j = (?labels ! j, planes ! j)" if "j < length planes" for j
    using that by (simp add: length_refinedLabels)
  have "planes ! k \<in> set planes" using k by (rule nth_mem)
  with i have "i \<in> set (concat planes)" by auto
  with dun have notun: "cellOf ext pts i \<notin> cellOf ext pts ` set un" by blast
  have x: "cellOf ext pts i \<in> cellOf ext pts ` set (snd (?lqs ! k))"
    using i k by (simp add: nth)
  have others: "cellOf ext pts i \<notin> cellOf ext pts ` set (snd (?lqs ! j))"
    if "j < length ?lqs" "j \<noteq> k" for j
  proof -
    from that len have j: "j < length planes" by simp
    have "set (map (map (cellOf ext pts)) planes ! j) \<inter> set (map (map (cellOf ext pts)) planes ! k) = {}"
      using dplanes that(2) j k by (intro distinct_concat_nth_neq) simp_all
    then have "cellOf ext pts ` set (planes ! j) \<inter> cellOf ext pts ` set (planes ! k) = {}"
      using j k by simp
    with i show ?thesis using j by (auto simp: nth)
  qed
  have "mat_at (relabelPlanes ext pts label (labeledImage spm) ?lqs) (cellOf ext pts i) =
        (if fst (?lqs ! k) \<noteq> label then fst (?lqs ! k) else mat_at (labeledImage spm) (cellOf ext pts i))"
    using k len x others by (intro relabelPlanes_at_nth) simp_all
  also have "\<dots> = (if k = 0 then mat_at (labeledImage spm) (cellOf ext pts i)
               else highestLabel spm + int k)"
    using k le by (simp add: nth lab)
  finally show "mat_at (labeledImage (refineLabelWithRansac ext p label pts0 spm)) (cellOf ext pts i) =
              (if k = 0 then mat_at (labeledImage spm) (cellOf ext pts i)
               else highestLabel spm + int k)"
    using notun by (simp add: img resetUnassigned_at)
qed

lemma checkerSegmented_highestLabel: "highestLabel (segmentedPlanesMap (checkerSegmented r)) = 1"
  by (simp add: checkerSegmented_def model_defs fixture_defs upt_rec)

lemma checkerSegmented_params: "labelPlaneParameters (segmentedPlanesMap (checkerSegmented r)) = []"
  by (simp add: checkerSegmented_def model_defs fixture_defs upt_rec)

lemma checkerSegmented_image:
  "mat_at (labeledImage (segmentedPlanesMap (checkerSegmented r))) =
   (\<lambda>index. if index = (2, 2) \<or> index = (1, 2) \<or> index = (2, 1) \<or> index = (1, 1) then 1 else 0)"
  by (rule ext) (simp add: checkerSegmented_def model_defs fixture_defs upt_rec)

lemma checkerRegion_eq:
  "checkerRegion =
     [((- 1, - 1, 1 / 10), (0, 0, 1)), ((- 2, - 1, - (1 / 10)), (0, 0, 1)),
      ((- 1, - 2, - (1 / 10)), (0, 0, 1)), ((- 2, - 2, 1 / 10), (0, 0, 1))]"
  by (simp add: checkerRegion_def checkerSegmented_def model_defs fixture_defs upt_rec)

lemma detect_checkerRegion:
  "detectPlanes testExternals checkerRegion =
     \<lparr>rr_points = rev checkerRegion, rr_planes = [[0], [1]], rr_unassigned = [2, 3]\<rparr>"
  by (simp add: testExternals_def singletonDetector_def checkerRegion_eq upt_rec)

lemma cells_checkerRegion:
  "map (cellOf testExternals (rev checkerRegion)) [0, 1, 2, 3] = [(2, 2), (1, 2), (2, 1), (1, 1)]"
  by (simp add: cellOf_def testExternals_def nearestIndex_def checkerRegion_eq)

lemma planeEntries_checkerRegion:
  "map fst (planeEntries testExternals (testParameters True) (rev checkerRegion) [(1, [0]), (2, [Suc 0])])
   = [1, 2]"
  by (simp add: planeEntries_def planeAccepted_def planeNormal_def planeSupport_def planeSums_def
      checkerRegion_eq model_defs fixture_defs)

text \<open>
  In the example the detector reports the cells (2, 2) and (1, 2) as planes and leaves
  (2, 1) and (1, 1) unassigned: (2, 2) keeps the label 1, (1, 2) gets the new label 2, the
  other two cells become 0, and both planes are emitted, under 1 and 2.
\<close>

theorem refinement_bookkeeping_witness:
  "1 \<le> highestLabel (segmentedPlanesMap (checkerSegmented True)) \<and>
   distinct (map (cellOf testExternals (rr_points (detectPlanes testExternals checkerRegion)))
               (concat (rr_planes (detectPlanes testExternals checkerRegion)) @
                rr_unassigned (detectPlanes testExternals checkerRegion))) \<and>
   highestLabel (refineLabelWithRansac testExternals (testParameters True) 1 checkerRegion
                   (segmentedPlanesMap (checkerSegmented True))) = 2 \<and>
   map fst (labelPlaneParameters
              (refineLabelWithRansac testExternals (testParameters True) 1 checkerRegion
                 (segmentedPlanesMap (checkerSegmented True)))) = [1, 2] \<and>
   map (mat_at (labeledImage
                  (refineLabelWithRansac testExternals (testParameters True) 1 checkerRegion
                     (segmentedPlanesMap (checkerSegmented True)))))
     [(2, 2), (1, 2), (2, 1), (1, 1)] = [1, 2, 0, 0]"
proof -
  have le: "1 \<le> highestLabel (segmentedPlanesMap (checkerSegmented True))"
    by (simp add: checkerSegmented_highestLabel)
  have dist: "distinct (map (cellOf testExternals (rr_points (detectPlanes testExternals checkerRegion)))
               (concat (rr_planes (detectPlanes testExternals checkerRegion)) @
                rr_unassigned (detectPlanes testExternals checkerRegion)))"
    using cells_checkerRegion by (simp add: detect_checkerRegion)
  from refinement_bookkeeping [OF le dist, of "testParameters True"] cells_checkerRegion
  have "highestLabel (refineLabelWithRansac testExternals (testParameters True) 1 checkerRegion
                   (segmentedPlanesMap (checkerSegmented True))) = 2 \<and>
   map fst (labelPlaneParameters
              (refineLabelWithRansac testExternals (testParameters True) 1 checkerRegion
                 (segmentedPlanesMap (checkerSegmented True)))) = [1, 2] \<and>
   map (mat_at (labeledImage
                  (refineLabelWithRansac testExternals (testParameters True) 1 checkerRegion
                     (segmentedPlanesMap (checkerSegmented True)))))
     [(2, 2), (1, 2), (2, 1), (1, 1)] = [1, 2, 0, 0]"
    by (simp add: detect_checkerRegion checkerSegmented_highestLabel checkerSegmented_params
        checkerSegmented_image refinedLabels_def planeEntries_checkerRegion All_less_Suc)
  with le dist show ?thesis by simp
qed

subsection \<open>The fit of a region\<close>

lemma computePlaneParametersForLabel_eq:
  "computePlaneParametersForLabel ext p gm normals label spm =
     (if int (regionCount ext gm normals label spm) < min_number_points_per_label p \<or>
         regionCount ext gm normals label spm < 3
      then spm
      else if include_ransac_refinement p \<and> \<not> regionGloballyPlanar ext p gm normals label spm
      then refineLabelWithRansac ext p label (snd (collectPoints ext gm normals label spm)) spm
      else emitPlane ext p label (regionSupport ext gm normals label spm)
             (regionNormal ext gm normals label spm) spm)"
proof -
  obtain n s q pts where c: "collectPoints ext gm normals label spm = ((n, s, q), pts)"
    by (cases "collectPoints ext gm normals label spm") auto
  show ?thesis
    by (simp add: computePlaneParametersForLabel_def regionCount_def regionSupport_def
        regionNormal_def regionGloballyPlanar_def c Let_def)
qed

text \<open>
  C2, as amended. When the refinement is disabled, \<open>isGloballyPlanar\<close> is not consulted:
  a region with enough points gets its entry exactly when the inclination of its fitted
  normal is below the threshold, and is dropped only when it is too steep or has too few
  points.
\<close>

theorem no_refinement_ignores_global_test:
  assumes "\<not> include_ransac_refinement p"
  shows "computePlaneParametersForLabel ext p gm normals label spm =
     (if int (regionCount ext gm normals label spm) < min_number_points_per_label p \<or>
         regionCount ext gm normals label spm < 3
      then spm
      else if angleBetweenNormalizedVectorsInDegrees (regionNormal ext gm normals label spm) UnitZ
                < plane_inclination_threshold_degrees p
      then spm\<lparr>labelPlaneParameters :=
                 labelPlaneParameters spm @
                 [(label, (regionSupport ext gm normals label spm,
                           orientation ext (regionNormal ext gm normals label spm)))]\<rparr>
      else spm)"
  using assms by (simp add: computePlaneParametersForLabel_eq emitPlane_def)

lemma checker_region_fit:
  "regionCount testExternals checkerMap (surfaceNormals (checkerSegmented r)) 1
     (segmentedPlanesMap (checkerSegmented r)) = 4"
  "regionSupport testExternals checkerMap (surfaceNormals (checkerSegmented r)) 1
     (segmentedPlanesMap (checkerSegmented r)) = (- (3 / 2), - (3 / 2), 0)"
  "regionNormal testExternals checkerMap (surfaceNormals (checkerSegmented r)) 1
     (segmentedPlanesMap (checkerSegmented r)) = (0, 0, 1)"
  by (simp_all add: regionCount_def regionSupport_def regionNormal_def checkerSegmented_def
      model_defs fixture_defs upt_rec)

lemma checker_region_not_planar:
  "\<not> regionGloballyPlanar testExternals (testParameters r) checkerMap
       (surfaceNormals (checkerSegmented r)) 1 (segmentedPlanesMap (checkerSegmented r))"
  unfolding regionGloballyPlanar_def checker_region_fit
  by (simp add: checkerSegmented_def model_defs fixture_defs upt_rec)

text \<open>
  C2 fails on the example map with the refinement disabled: the region of label 1 fails
  the global planarity test (its points lie 1/10 off the fitted plane, the threshold is
  1/100), and yet the run emits the entry of label 1.
\<close>

theorem non_planar_region_emitted:
  "\<not> include_ransac_refinement (testParameters False) \<and>
   \<not> regionGloballyPlanar testExternals (testParameters False) checkerMap
       (surfaceNormals (checkerSegmented False)) 1 (segmentedPlanesMap (checkerSegmented False)) \<and>
   labelPlaneParameters
     (segmentedPlanesMap (runExtraction testExternals (testParameters False) checkerMap freshExtractor))
   = [(1, ((- (3 / 2), - (3 / 2), 0), ((1, 0, 0), (0, 1, 0), (0, 0, 1))))]"
proof -
  have "labelPlaneParameters
     (segmentedPlanesMap (runExtraction testExternals (testParameters False) checkerMap freshExtractor))
   = [(1, ((- (3 / 2), - (3 / 2), 0), ((1, 0, 0), (0, 1, 0), (0, 0, 1))))]"
    by (simp add: model_defs fixture_defs upt_rec)
  with checker_region_not_planar [of False] show ?thesis
    by (simp add: testParameters_def)
qed

theorem no_refinement_ignores_global_test_witness:
  "\<not> include_ransac_refinement (testParameters False) \<and>
   labelPlaneParameters
     (computePlaneParametersForLabel testExternals (testParameters False) checkerMap
        (surfaceNormals (checkerSegmented False)) 1 (segmentedPlanesMap (checkerSegmented False)))
   = [(1, ((- (3 / 2), - (3 / 2), 0), ((1, 0, 0), (0, 1, 0), (0, 0, 1))))]"
proof -
  have h: "\<not> include_ransac_refinement (testParameters False)"
    by (simp add: testParameters_def)
  have a: "angleBetweenNormalizedVectorsInDegrees (0, 0, 1) UnitZ
           < plane_inclination_threshold_degrees (testParameters False)"
    by (simp add: angleBetweenNormalizedVectorsInDegrees_def UnitZ_def testParameters_def)
  have m: "min_number_points_per_label (testParameters False) = 4"
    and o: "orientation testExternals (0, 0, 1) = ((1, 0, 0), (0, 1, 0), (0, 0, 1))"
    by (simp_all add: testParameters_def testExternals_def)
  from no_refinement_ignores_global_test [OF h, of testExternals checkerMap
       "surfaceNormals (checkerSegmented False)" 1 "segmentedPlanesMap (checkerSegmented False)"] h
  show ?thesis
    by (simp add: checker_region_fit a m o checkerSegmented_params)
qed

subsection \<open>The loop over the labels\<close>

lemma extractLoop_empty: "k < label \<Longrightarrow> extractLoop ext p gm nb label k s = s"
  by (subst extractLoop.simps) simp

lemma extractLoop_unfold:
  "label \<le> k \<Longrightarrow>
   extractLoop ext p gm nb label k s =
   extractLoop ext p gm nb (label + 1) k (computePlaneParametersForLabel ext p gm nb label s)"
  by (subst extractLoop.simps) simp

lemma extractLoop_step:
  "label \<le> k + 1 \<Longrightarrow>
   extractLoop ext p gm nb label (k + 1) s =
   computePlaneParametersForLabel ext p gm nb (k + 1) (extractLoop ext p gm nb label k s)"
proof (induction ext p gm nb label k s rule: extractLoop.induct)
  case (1 ext p gm nb label k s)
  show ?case
  proof (cases "label \<le> k")
    case True
    with "1.IH" have IH: "extractLoop ext p gm nb (label + 1) (k + 1)
            (computePlaneParametersForLabel ext p gm nb label s) =
          computePlaneParametersForLabel ext p gm nb (k + 1)
            (extractLoop ext p gm nb (label + 1) k (computePlaneParametersForLabel ext p gm nb label s))"
      by simp
    have a: "extractLoop ext p gm nb label (k + 1) s =
          extractLoop ext p gm nb (label + 1) (k + 1) (computePlaneParametersForLabel ext p gm nb label s)"
      using True by (intro extractLoop_unfold) simp
    have b: "extractLoop ext p gm nb label k s =
          extractLoop ext p gm nb (label + 1) k (computePlaneParametersForLabel ext p gm nb label s)"
      using True by (rule extractLoop_unfold)
    show ?thesis
      unfolding a b by (rule IH)
  next
    case False
    with "1.prems" have l: "label = k + 1" by simp
    have a: "extractLoop ext p gm nb (k + 1) (k + 1) s =
          extractLoop ext p gm nb (k + 1 + 1) (k + 1) (computePlaneParametersForLabel ext p gm nb (k + 1) s)"
      by (rule extractLoop_unfold) simp
    have b: "extractLoop ext p gm nb (k + 1 + 1) (k + 1) (computePlaneParametersForLabel ext p gm nb (k + 1) s)
          = computePlaneParametersForLabel ext p gm nb (k + 1) s"
      by (rule extractLoop_empty) simp
    have c: "extractLoop ext p gm nb (k + 1) k s = s"
      by (rule extractLoop_empty) simp
    show ?thesis
      unfolding l a b c ..
  qed
qed

lemma stateAfter_0: "stateAfter ext p gm e 0 = segmentedPlanesMap (segmented ext p gm e)"
  by (simp add: stateAfter_def extractLoop_empty)

lemma stateAfter_Suc:
  "0 \<le> k \<Longrightarrow>
   stateAfter ext p gm e (k + 1) =
   computePlaneParametersForLabel ext p gm (surfaceNormals (segmented ext p gm e)) (k + 1)
     (stateAfter ext p gm e k)"
  unfolding stateAfter_def by (rule extractLoop_step) simp

lemma stateAfter_neg: "k \<le> 0 \<Longrightarrow> stateAfter ext p gm e k = stateAfter ext p gm e 0"
  by (simp add: stateAfter_def extractLoop_empty)

lemma run_stateAfter:
  "segmentedPlanesMap (runExtraction ext p gm e) =
   stateAfter ext p gm e (highestLabel (stateAfter ext p gm e 0))"
  by (simp add: runExtraction_def Let_def extractPlaneParametersFromLabeledImage_def stateAfter_0)
     (simp add: stateAfter_def)

lemma segmented_params: "labelPlaneParameters (segmentedPlanesMap (segmented ext p gm e)) = []"
  by (simp add: segmented_def runSegmentation_def runSlidingWindowDetector_def Let_def
      slidingWindowScan_def scan_spm initExtraction_def split: prod.splits)

subsection \<open>The labels one region can add\<close>

lemma relabelPlanes_values_fresh:
  "mat_at (relabelPlanes ext pts label img lqs) x = mat_at img x \<or>
   (mat_at (relabelPlanes ext pts label img lqs) x \<in> fst ` set lqs \<and>
    mat_at (relabelPlanes ext pts label img lqs) x \<noteq> label)"
proof (induction lqs arbitrary: img)
  case Nil
  show ?case by (simp add: relabelPlanes_def)
next
  case (Cons lq lqs)
  obtain l q where lq: "lq = (l, q)" by (cases lq)
  from Cons.IH [of "relabelPlane ext pts label l img q"]
  show ?case
    by (auto simp: lq relabelPlanes_Cons relabelPlane_at split: if_splits)
qed

lemma set_refinedLabels:
  "set (refinedLabels label h n) \<subseteq> insert label {h + 1..h + int (n - 1)}"
  by (cases n) (auto simp: refinedLabels_def)

lemma distinct_refinedLabels: "label \<le> h \<Longrightarrow> distinct (refinedLabels label h n)"
  by (cases n) (auto simp: refinedLabels_def)

lemma fst_planeEntries:
  "map fst (planeEntries ext p pts lqs) = map fst (filter (\<lambda>(l, q). planeAccepted ext p pts q) lqs)"
  by (induction lqs) (auto simp: planeEntries_def)

lemma set_fst_planeEntries:
  "set (map fst (planeEntries ext p pts (zip ls qs))) \<subseteq> set ls"
  unfolding fst_planeEntries by (auto dest: set_zip_leftD)

lemma distinct_fst_planeEntries:
  assumes "distinct ls"
  shows "distinct (map fst (planeEntries ext p pts (zip ls qs)))"
proof -
  have "distinct (map fst (zip ls qs))"
    using assms by (simp add: map_fst_zip_take)
  then show ?thesis
    unfolding fst_planeEntries by (rule distinct_map_filter)
qed

text \<open>What one pass of the loop over the labels does to the labels.\<close>

lemma region_labels:
  fixes ext :: externals and p :: parameters and gm :: grid_map and nb :: normal_buffer
    and label :: int and s :: segmented_planes_map
  defines "s' \<equiv> computePlaneParametersForLabel ext p gm nb label s"
  shows "highestLabel s \<le> highestLabel s'"
    and "\<exists>new. labelPlaneParameters s' = labelPlaneParameters s @ new \<and>
           (label \<le> highestLabel s \<longrightarrow> distinct (map fst new)) \<and>
           set (map fst new) \<subseteq> insert label {highestLabel s + 1..highestLabel s'}"
    and "mat_at (labeledImage s') x = mat_at (labeledImage s) x \<or>
         mat_at (labeledImage s') x = 0 \<or>
         mat_at (labeledImage s') x \<in> {highestLabel s + 1..highestLabel s'}"
proof -
  let ?pts0 = "snd (collectPoints ext gm nb label s)"
  let ?r = "detectPlanes ext ?pts0"
  let ?n = "length (rr_planes ?r)"
  let ?ls = "refinedLabels label (highestLabel s) ?n"
  have "s' = s \<or>
        s' = emitPlane ext p label (regionSupport ext gm nb label s) (regionNormal ext gm nb label s) s \<or>
        s' = refineLabelWithRansac ext p label ?pts0 s"
    unfolding s'_def computePlaneParametersForLabel_eq by simp
  then consider (same) "s' = s"
    | (emit) "s' = emitPlane ext p label (regionSupport ext gm nb label s) (regionNormal ext gm nb label s) s"
    | (refine) "s' = refineLabelWithRansac ext p label ?pts0 s"
    by blast
  from this have "highestLabel s \<le> highestLabel s' \<and>
     (\<exists>new. labelPlaneParameters s' = labelPlaneParameters s @ new \<and>
           (label \<le> highestLabel s \<longrightarrow> distinct (map fst new)) \<and>
           set (map fst new) \<subseteq> insert label {highestLabel s + 1..highestLabel s'}) \<and>
     (mat_at (labeledImage s') x = mat_at (labeledImage s) x \<or>
         mat_at (labeledImage s') x = 0 \<or>
         mat_at (labeledImage s') x \<in> {highestLabel s + 1..highestLabel s'})"
  proof cases
    case same
    then show ?thesis by simp
  next
    case emit
    then show ?thesis by (simp add: emitPlane_def)
  next
    case refine
    have h: "highestLabel s' = highestLabel s + int (?n - 1)"
      by (simp add: refine refineLabelWithRansac_eq)
    have par: "labelPlaneParameters s' =
        labelPlaneParameters s @ planeEntries ext p (rr_points ?r) (zip ?ls (rr_planes ?r))"
      by (simp add: refine refineLabelWithRansac_eq)
    have sub: "set (map fst (planeEntries ext p (rr_points ?r) (zip ?ls (rr_planes ?r))))
        \<subseteq> insert label {highestLabel s + 1..highestLabel s'}"
      using set_fst_planeEntries [of ext p "rr_points ?r" ?ls "rr_planes ?r"]
        set_refinedLabels [of label "highestLabel s" ?n] h by auto
    have dis: "label \<le> highestLabel s \<longrightarrow>
        distinct (map fst (planeEntries ext p (rr_points ?r) (zip ?ls (rr_planes ?r))))"
      by (simp add: distinct_fst_planeEntries distinct_refinedLabels)
    have img: "labeledImage s' =
        resetUnassigned ext (rr_points ?r) (rr_unassigned ?r)
          (relabelPlanes ext (rr_points ?r) label (labeledImage s) (zip ?ls (rr_planes ?r)))"
      by (simp add: refine refineLabelWithRansac_eq)
    have val: "mat_at (labeledImage s') x = mat_at (labeledImage s) x \<or>
         mat_at (labeledImage s') x = 0 \<or>
         mat_at (labeledImage s') x \<in> {highestLabel s + 1..highestLabel s'}"
    proof (cases "x \<in> cellOf ext (rr_points ?r) ` set (rr_unassigned ?r)")
      case True
      then show ?thesis by (simp add: img resetUnassigned_at)
    next
      case False
      let ?v = "mat_at (relabelPlanes ext (rr_points ?r) label (labeledImage s) (zip ?ls (rr_planes ?r))) x"
      from False have v: "mat_at (labeledImage s') x = ?v"
        by (simp add: img resetUnassigned_at)
      from relabelPlanes_values_fresh [of ext "rr_points ?r" label "labeledImage s" "zip ?ls (rr_planes ?r)" x]
      show ?thesis
      proof
        assume "?v = mat_at (labeledImage s) x"
        with v show ?thesis by simp
      next
        assume a: "?v \<in> fst ` set (zip ?ls (rr_planes ?r)) \<and> ?v \<noteq> label"
        then have "?v \<in> set ?ls" by (auto dest: set_zip_leftD)
        with a set_refinedLabels [of label "highestLabel s" ?n] h
        have "?v \<in> {highestLabel s + 1..highestLabel s'}" by auto
        with v show ?thesis by simp
      qed
    qed
    from h par sub dis val show ?thesis by simp
  qed
  then show "highestLabel s \<le> highestLabel s'"
    and "\<exists>new. labelPlaneParameters s' = labelPlaneParameters s @ new \<and>
           (label \<le> highestLabel s \<longrightarrow> distinct (map fst new)) \<and>
           set (map fst new) \<subseteq> insert label {highestLabel s + 1..highestLabel s'}"
    and "mat_at (labeledImage s') x = mat_at (labeledImage s) x \<or>
         mat_at (labeledImage s') x = 0 \<or>
         mat_at (labeledImage s') x \<in> {highestLabel s + 1..highestLabel s'}"
    by simp_all
qed

subsection \<open>The labels of a run\<close>

text \<open>The invariant of the loop over the labels, after the labels 1 to \<open>k\<close>.\<close>

lemma run_invariant:
  assumes "0 \<le> k" and "k \<le> highestLabel (stateAfter ext p gm e 0)"
  shows "highestLabel (stateAfter ext p gm e 0) \<le> highestLabel (stateAfter ext p gm e k) \<and>
         distinct (map fst (labelPlaneParameters (stateAfter ext p gm e k))) \<and>
         (\<forall>l \<in> set (map fst (labelPlaneParameters (stateAfter ext p gm e k))).
            1 \<le> l \<and> (l \<le> k \<or> highestLabel (stateAfter ext p gm e 0) < l) \<and>
            l \<le> highestLabel (stateAfter ext p gm e k))"
  using assms
proof (induction k rule: int_ge_induct)
  case base
  show ?case by (simp add: stateAfter_0 segmented_params)
next
  case (step k)
  let ?N = "highestLabel (stateAfter ext p gm e 0)"
  let ?s = "stateAfter ext p gm e k"
  let ?s' = "stateAfter ext p gm e (k + 1)"
  let ?nb = "surfaceNormals (segmented ext p gm e)"
  have s': "?s' = computePlaneParametersForLabel ext p gm ?nb (k + 1) ?s"
    using step.hyps by (rule stateAfter_Suc)
  have "k \<le> ?N" using step.prems by simp
  from step.IH [OF this] have IH: "?N \<le> highestLabel ?s"
    "distinct (map fst (labelPlaneParameters ?s))"
    "\<And>l. l \<in> set (map fst (labelPlaneParameters ?s)) \<Longrightarrow>
        1 \<le> l \<and> (l \<le> k \<or> ?N < l) \<and> l \<le> highestLabel ?s"
    by blast+
  have mono: "highestLabel ?s \<le> highestLabel ?s'"
    unfolding s' by (rule region_labels(1))
  from region_labels(2) [of ext p gm ?nb "k + 1" ?s]
  obtain new where new: "labelPlaneParameters ?s' = labelPlaneParameters ?s @ new"
    and dis: "k + 1 \<le> highestLabel ?s \<longrightarrow> distinct (map fst new)"
    and sub: "set (map fst new) \<subseteq> insert (k + 1) {highestLabel ?s + 1..highestLabel ?s'}"
    unfolding s' by blast
  have le: "k + 1 \<le> highestLabel ?s" using step.prems IH(1) by simp
  have disj: "set (map fst (labelPlaneParameters ?s)) \<inter> set (map fst new) = {}"
  proof (rule ccontr)
    assume "set (map fst (labelPlaneParameters ?s)) \<inter> set (map fst new) \<noteq> {}"
    then obtain l where l: "l \<in> set (map fst (labelPlaneParameters ?s))" "l \<in> set (map fst new)"
      by blast
    from l(2) sub have "l = k + 1 \<or> highestLabel ?s < l" by auto
    with IH(3) [OF l(1)] step.prems show False by linarith
  qed
  have d: "distinct (map fst (labelPlaneParameters ?s'))"
    using IH(2) dis le disj by (simp add: new)
  have b: "1 \<le> l \<and> (l \<le> k + 1 \<or> ?N < l) \<and> l \<le> highestLabel ?s'"
    if "l \<in> set (map fst (labelPlaneParameters ?s'))" for l
  proof -
    from that new have "l \<in> set (map fst (labelPlaneParameters ?s)) \<or> l \<in> set (map fst new)"
      by auto
    then show ?thesis
    proof
      assume "l \<in> set (map fst (labelPlaneParameters ?s))"
      from IH(3) [OF this] mono show ?thesis by linarith
    next
      assume "l \<in> set (map fst new)"
      with sub have "l = k + 1 \<or> (highestLabel ?s < l \<and> l \<le> highestLabel ?s')" by auto
      with step.hyps le mono IH(1) show ?thesis by linarith
    qed
  qed
  have "?N \<le> highestLabel ?s'" using IH(1) mono by simp
  with d b show ?case by blast
qed

lemma run_invariant_final:
  "distinct (map fst (labelPlaneParameters (segmentedPlanesMap (runExtraction ext p gm e)))) \<and>
   (\<forall>l \<in> set (map fst (labelPlaneParameters (segmentedPlanesMap (runExtraction ext p gm e)))). 1 \<le> l)"
proof (cases "0 \<le> highestLabel (stateAfter ext p gm e 0)")
  case True
  from run_invariant [OF True order_refl] show ?thesis
    unfolding run_stateAfter by blast
next
  case False
  then have "stateAfter ext p gm e (highestLabel (stateAfter ext p gm e 0)) = stateAfter ext p gm e 0"
    by (intro stateAfter_neg) simp
  then show ?thesis
    by (simp add: run_stateAfter stateAfter_0 segmented_params)
qed

text \<open>
  C4. After a run, every label appears at most once in \<open>labelPlaneParameters\<close>.
\<close>

theorem one_plane_per_label:
  "distinct (map fst (labelPlaneParameters (segmentedPlanesMap (runExtraction ext p gm e))))"
  using run_invariant_final [of ext p gm e] by blast

text \<open>
  C10. Every entry of \<open>labelPlaneParameters\<close> after a run has a label of at least 1.
\<close>

theorem no_plane_for_background:
  "\<forall>(l, plane) \<in> set (labelPlaneParameters (segmentedPlanesMap (runExtraction ext p gm e))). 1 \<le> l"
  using run_invariant_final [of ext p gm e] by auto

lemma checker_run_refined:
  "highestLabel (stateAfter testExternals (testParameters True) checkerMap freshExtractor 0) = 1"
  "highestLabel (stateAfter testExternals (testParameters True) checkerMap freshExtractor 1) = 2"
  "map fst (labelPlaneParameters
     (stateAfter testExternals (testParameters True) checkerMap freshExtractor 1)) = [1, 2]"
  "map fst (labelPlaneParameters
     (segmentedPlanesMap (runExtraction testExternals (testParameters True) checkerMap freshExtractor)))
   = [1, 2]"
  by (simp_all add: stateAfter_def model_defs fixture_defs upt_rec)

text \<open>The example run with the refinement enabled appends the entries of the labels 1 and 2.\<close>

theorem no_plane_for_background_witness:
  "map fst (labelPlaneParameters
     (segmentedPlanesMap (runExtraction testExternals (testParameters True) checkerMap freshExtractor)))
   = [1, 2] \<and> (1::int) \<le> 1 \<and> (1::int) \<le> 2"
proof -
  let ?ps = "labelPlaneParameters
     (segmentedPlanesMap (runExtraction testExternals (testParameters True) checkerMap freshExtractor))"
  have l: "map fst ?ps = [1, 2]" by (rule checker_run_refined(4))
  then obtain a b where ab: "?ps = [(1, a), (2, b)]" by auto
  from no_plane_for_background [of testExternals "testParameters True" checkerMap freshExtractor]
  have "(1::int) \<le> 1 \<and> (1::int) \<le> 2" unfolding ab by simp
  with l show ?thesis by simp
qed

text \<open>The example run with the detector of three planes.\<close>

lemma triple_run:
  "highestLabel (stateAfter tripleExternals (testParameters True) checkerMap freshExtractor 0) = 1"
  "highestLabel (stateAfter tripleExternals (testParameters True) checkerMap freshExtractor 1) = 3"
  "map fst (labelPlaneParameters
     (stateAfter tripleExternals (testParameters True) checkerMap freshExtractor 1)) = [1, 2, 3]"
  "map (mat_at (labeledImage (stateAfter tripleExternals (testParameters True) checkerMap freshExtractor 0)))
     [(1, 1), (2, 1), (1, 2), (2, 2)] = [1, 1, 1, 1]"
  "map (mat_at (labeledImage (stateAfter tripleExternals (testParameters True) checkerMap freshExtractor 1)))
     [(1, 1), (2, 1), (1, 2), (2, 2)] = [0, 3, 2, 1]"
  by (simp_all add: stateAfter_def tripleExternals_def tripleDetector_def model_defs fixture_defs upt_rec)

lemma triple_region:
  "regionRefined tripleExternals (testParameters True) checkerMap
     (surfaceNormals (segmented tripleExternals (testParameters True) checkerMap freshExtractor)) 1
     (stateAfter tripleExternals (testParameters True) checkerMap freshExtractor 0)"
  "rr_planes (regionDetected tripleExternals checkerMap
     (surfaceNormals (segmented tripleExternals (testParameters True) checkerMap freshExtractor)) 1
     (stateAfter tripleExternals (testParameters True) checkerMap freshExtractor 0)) = [[0], [1], [2]]"
  by (simp_all add: regionRefined_def regionDetected_def regionGloballyPlanar_def regionCount_def
      regionSupport_def regionNormal_def
      stateAfter_def tripleExternals_def tripleDetector_def model_defs fixture_defs upt_rec)

lemma triple_cells:
  "map (cellOf tripleExternals (rr_points (regionDetected tripleExternals checkerMap
          (surfaceNormals (segmented tripleExternals (testParameters True) checkerMap freshExtractor)) 1
          (stateAfter tripleExternals (testParameters True) checkerMap freshExtractor 0))))
     (concat (rr_planes (regionDetected tripleExternals checkerMap
          (surfaceNormals (segmented tripleExternals (testParameters True) checkerMap freshExtractor)) 1
          (stateAfter tripleExternals (testParameters True) checkerMap freshExtractor 0))) @
      rr_unassigned (regionDetected tripleExternals checkerMap
          (surfaceNormals (segmented tripleExternals (testParameters True) checkerMap freshExtractor)) 1
          (stateAfter tripleExternals (testParameters True) checkerMap freshExtractor 0)))
     = [(2, 2), (1, 2), (2, 1), (1, 1)]"
  by (simp add: regionDetected_def stateAfter_def tripleExternals_def tripleDetector_def
      model_defs fixture_defs upt_rec)


lemma region_refined_or_not:
  fixes ext :: externals and p :: parameters and gm :: grid_map and nb :: normal_buffer
    and label :: int and s :: segmented_planes_map
  defines "s' \<equiv> computePlaneParametersForLabel ext p gm nb label s"
    and "d \<equiv> regionDetected ext gm nb label s"
  shows "if regionRefined ext p gm nb label s
         then highestLabel s' = highestLabel s + int (length (rr_planes d) - 1) \<and>
              labeledImage s' =
                resetUnassigned ext (rr_points d) (rr_unassigned d)
                  (relabelPlanes ext (rr_points d) label (labeledImage s)
                     (zip (refinedLabels label (highestLabel s) (length (rr_planes d))) (rr_planes d))) \<and>
              labelPlaneParameters s' =
                labelPlaneParameters s @
                planeEntries ext p (rr_points d)
                  (zip (refinedLabels label (highestLabel s) (length (rr_planes d))) (rr_planes d))
         else highestLabel s' = highestLabel s \<and> labeledImage s' = labeledImage s"
proof (cases "regionRefined ext p gm nb label s")
  case True
  then have "s' = refineLabelWithRansac ext p label (snd (collectPoints ext gm nb label s)) s"
    unfolding s'_def computePlaneParametersForLabel_eq regionRefined_def by simp
  with True show ?thesis
    by (simp add: refineLabelWithRansac_eq d_def regionDetected_def)
next
  case False
  then have "s' = s \<or>
        s' = emitPlane ext p label (regionSupport ext gm nb label s) (regionNormal ext gm nb label s) s"
    unfolding s'_def computePlaneParametersForLabel_eq regionRefined_def by auto
  then have "highestLabel s' = highestLabel s \<and> labeledImage s' = labeledImage s"
    by (auto simp add: emitPlane_def)
  with False show ?thesis by simp
qed

lemma refined_cell_label:
  fixes ext :: externals and pts0 :: "point_with_normal list"
  defines "r \<equiv> detectPlanes ext pts0"
  assumes le: "label \<le> highestLabel spm"
    and dist: "distinct (map (cellOf ext (rr_points r)) (concat (rr_planes r) @ rr_unassigned r))"
    and k: "k < length (rr_planes r)" and i: "i \<in> set (rr_planes r ! k)"
  shows "mat_at (labeledImage (refineLabelWithRansac ext p label pts0 spm)) (cellOf ext (rr_points r) i) =
         (if k = 0 then mat_at (labeledImage spm) (cellOf ext (rr_points r) i)
          else highestLabel spm + int k)"
proof -
  let ?pts = "rr_points r"
  let ?planes = "rr_planes r"
  let ?un = "rr_unassigned r"
  let ?labels = "refinedLabels label (highestLabel spm) (length ?planes)"
  let ?lqs = "zip ?labels ?planes"
  have img: "labeledImage (refineLabelWithRansac ext p label pts0 spm) =
        resetUnassigned ext ?pts ?un (relabelPlanes ext ?pts label (labeledImage spm) ?lqs)"
    by (simp add: refineLabelWithRansac_eq r_def)
  have len: "length ?lqs = length ?planes"
    by (simp add: length_refinedLabels)
  have dplanes: "distinct (concat (map (map (cellOf ext ?pts)) ?planes))"
    using dist by (simp add: map_concat)
  have dun: "cellOf ext ?pts ` set (concat ?planes) \<inter> cellOf ext ?pts ` set ?un = {}"
    using dist by auto
  have lab: "?labels ! k = (if k = 0 then label else highestLabel spm + int k)"
    using k by (rule nth_refinedLabels)
  have nth: "?lqs ! j = (?labels ! j, ?planes ! j)" if "j < length ?planes" for j
    using that by (simp add: length_refinedLabels)
  have "?planes ! k \<in> set ?planes" using k by (rule nth_mem)
  with i have "i \<in> set (concat ?planes)" by auto
  with dun have notun: "cellOf ext ?pts i \<notin> cellOf ext ?pts ` set ?un" by blast
  have x: "cellOf ext ?pts i \<in> cellOf ext ?pts ` set (snd (?lqs ! k))"
    using i k by (simp add: nth)
  have others: "cellOf ext ?pts i \<notin> cellOf ext ?pts ` set (snd (?lqs ! j))"
    if "j < length ?lqs" "j \<noteq> k" for j
  proof -
    from that len have j: "j < length ?planes" by simp
    have "set (map (map (cellOf ext ?pts)) ?planes ! j) \<inter>
          set (map (map (cellOf ext ?pts)) ?planes ! k) = {}"
      using dplanes that(2) j k by (intro distinct_concat_nth_neq) simp_all
    then have "cellOf ext ?pts ` set (?planes ! j) \<inter> cellOf ext ?pts ` set (?planes ! k) = {}"
      using j k by simp
    with i show ?thesis using j by (auto simp: nth)
  qed
  have "mat_at (relabelPlanes ext ?pts label (labeledImage spm) ?lqs) (cellOf ext ?pts i) =
        (if fst (?lqs ! k) \<noteq> label then fst (?lqs ! k) else mat_at (labeledImage spm) (cellOf ext ?pts i))"
    using k len x others by (intro relabelPlanes_at_nth) simp_all
  also have "\<dots> = (if k = 0 then mat_at (labeledImage spm) (cellOf ext ?pts i)
               else highestLabel spm + int k)"
    using k le by (simp add: nth lab)
  finally show ?thesis
    using notun by (simp add: img resetUnassigned_at)
qed

text \<open>
  C5. Between the state after the region \<open>k\<close> and the state after the region \<open>k + 1\<close> of
  a run, \<open>highestLabel\<close> does not decrease and stays at or above its value after the
  segmentation. An entry that is appended carries the label \<open>k + 1\<close> of the region or a
  new label; a cell of the labelled image keeps its label, gets 0, or gets a new label.
  A new label lies above the \<open>highestLabel\<close> of the segmentation, hence above every label
  the loop visits, above the \<open>highestLabel\<close> before the region, hence above every label
  allocated earlier, and at most at the \<open>highestLabel\<close> after the region.

  No label is used twice. The labels of the entries appended for the region differ from
  one another and from the label of every entry appended before, every one of which is
  at most the \<open>highestLabel\<close> before the region, and the labels of all entries stay
  pairwise different. When the region is handed to the refinement, the plane at
  position \<open>i\<close> of the detector's \<open>n\<close> planes gets the label at position \<open>i\<close> of
  \<open>refinedLabels\<close>: the label of the region for \<open>i = 0\<close> and \<open>highestLabel + i\<close> after
  that. These labels are pairwise different, the new ones among them are exactly the
  \<open>n - 1\<close> values by which \<open>highestLabel\<close> rises, and the labelled image and the
  appended entries are the ones written with these labels. When the region is not
  refined, \<open>highestLabel\<close> and the labelled image stay as they are. When the
  detector claims pairwise different cells, every cell of the plane at a position
  \<open>i \<ge> 1\<close> carries the label \<open>highestLabel + i\<close> of that plane after the refinement,
  so that the cells of two such planes carry two labels.
\<close>

theorem labels_only_grow:
  fixes ext :: externals and p :: parameters and gm :: grid_map and e :: extractor and k :: int
  defines "N \<equiv> highestLabel (stateAfter ext p gm e 0)"
    and "s \<equiv> stateAfter ext p gm e k"
    and "s' \<equiv> stateAfter ext p gm e (k + 1)"
    and "d \<equiv> regionDetected ext gm (surfaceNormals (segmented ext p gm e)) (k + 1)
                (stateAfter ext p gm e k)"
    and "ls \<equiv> refinedLabels (k + 1) (highestLabel (stateAfter ext p gm e k))
                 (length (rr_planes (regionDetected ext gm (surfaceNormals (segmented ext p gm e))
                    (k + 1) (stateAfter ext p gm e k))))"
  assumes "0 \<le> k" and "k < highestLabel (stateAfter ext p gm e 0)"
  shows "N \<le> highestLabel s \<and>
         highestLabel s \<le> highestLabel s' \<and>
         (\<exists>new. labelPlaneParameters s' = labelPlaneParameters s @ new \<and>
                distinct (map fst new) \<and>
                (\<forall>l \<in> set (map fst new).
                   l \<notin> set (map fst (labelPlaneParameters s)) \<and>
                   (l = k + 1 \<or> (N < l \<and> highestLabel s < l \<and> l \<le> highestLabel s')))) \<and>
         (\<forall>x. mat_at (labeledImage s') x = mat_at (labeledImage s) x \<or>
               mat_at (labeledImage s') x = 0 \<or>
               (N < mat_at (labeledImage s') x \<and>
                highestLabel s < mat_at (labeledImage s') x \<and>
                mat_at (labeledImage s') x \<le> highestLabel s')) \<and>
         (\<forall>l \<in> set (map fst (labelPlaneParameters s)). l \<le> highestLabel s) \<and>
         distinct (map fst (labelPlaneParameters s')) \<and>
         (if regionRefined ext p gm (surfaceNormals (segmented ext p gm e)) (k + 1) s
          then highestLabel s' = highestLabel s + int (length (rr_planes d) - 1) \<and>
               labeledImage s' =
                 resetUnassigned ext (rr_points d) (rr_unassigned d)
                   (relabelPlanes ext (rr_points d) (k + 1) (labeledImage s) (zip ls (rr_planes d))) \<and>
               labelPlaneParameters s' =
                 labelPlaneParameters s @ planeEntries ext p (rr_points d) (zip ls (rr_planes d))
          else highestLabel s' = highestLabel s \<and> labeledImage s' = labeledImage s) \<and>
         length ls = length (rr_planes d) \<and>
         distinct ls \<and>
         (\<forall>i < length ls. \<forall>j < length ls. i \<noteq> j \<longrightarrow> ls ! i \<noteq> ls ! j) \<and>
         (\<forall>i < length ls. ls ! i = (if i = 0 then k + 1 else highestLabel s + int i)) \<and>
         (\<forall>i < length ls. 0 < i \<longrightarrow>
            N < ls ! i \<and> highestLabel s < ls ! i \<and> ls ! i \<le> highestLabel s + int (length ls - 1)) \<and>
         (regionRefined ext p gm (surfaceNormals (segmented ext p gm e)) (k + 1) s \<and>
          distinct (map (cellOf ext (rr_points d)) (concat (rr_planes d) @ rr_unassigned d)) \<longrightarrow>
          (\<forall>i < length (rr_planes d). \<forall>c \<in> set (rr_planes d ! i).
             mat_at (labeledImage s') (cellOf ext (rr_points d) c) =
               (if i = 0 then mat_at (labeledImage s) (cellOf ext (rr_points d) c)
                else highestLabel s + int i)))"
proof -
  let ?nb = "surfaceNormals (segmented ext p gm e)"
  have s': "s' = computePlaneParametersForLabel ext p gm ?nb (k + 1) s"
    unfolding s'_def s_def using assms(6) by (rule stateAfter_Suc)
  have kN: "k \<le> N" using assms(7) by (simp add: N_def)
  from run_invariant [OF assms(6) kN [unfolded N_def]]
  have a: "N \<le> highestLabel s"
    and old: "\<And>l. l \<in> set (map fst (labelPlaneParameters s)) \<Longrightarrow>
                (l \<le> k \<or> N < l) \<and> l \<le> highestLabel s"
    unfolding N_def s_def by blast+
  have k1N: "k + 1 \<le> N" using assms(7) by (simp add: N_def)
  from run_invariant [OF _ k1N [unfolded N_def]] assms(6)
  have dall: "distinct (map fst (labelPlaneParameters s'))"
    unfolding s'_def by simp
  have le: "k + 1 \<le> highestLabel s" using k1N a by simp
  have b: "highestLabel s \<le> highestLabel s'"
    unfolding s' by (rule region_labels(1))
  from region_labels(2) [of ext p gm ?nb "k + 1" s]
  obtain new where new: "labelPlaneParameters s' = labelPlaneParameters s @ new"
    and dis: "k + 1 \<le> highestLabel s \<longrightarrow> distinct (map fst new)"
    and sub: "set (map fst new) \<subseteq> insert (k + 1) {highestLabel s + 1..highestLabel s'}"
    unfolding s' by blast
  from dis le have dnew: "distinct (map fst new)" by simp
  have "l \<notin> set (map fst (labelPlaneParameters s)) \<and>
        (l = k + 1 \<or> (N < l \<and> highestLabel s < l \<and> l \<le> highestLabel s'))"
    if "l \<in> set (map fst new)" for l
  proof -
    from that sub have r: "l = k + 1 \<or> (highestLabel s + 1 \<le> l \<and> l \<le> highestLabel s')"
      by auto
    have "l \<notin> set (map fst (labelPlaneParameters s))"
    proof
      assume "l \<in> set (map fst (labelPlaneParameters s))"
      from old [OF this] r k1N show False by linarith
    qed
    with r a show ?thesis by linarith
  qed
  with new dnew have c: "\<exists>new. labelPlaneParameters s' = labelPlaneParameters s @ new \<and>
                distinct (map fst new) \<and>
                (\<forall>l \<in> set (map fst new).
                   l \<notin> set (map fst (labelPlaneParameters s)) \<and>
                   (l = k + 1 \<or> (N < l \<and> highestLabel s < l \<and> l \<le> highestLabel s')))"
    by blast
  have d: "mat_at (labeledImage s') x = mat_at (labeledImage s) x \<or>
           mat_at (labeledImage s') x = 0 \<or>
           (N < mat_at (labeledImage s') x \<and>
            highestLabel s < mat_at (labeledImage s') x \<and>
            mat_at (labeledImage s') x \<le> highestLabel s')" for x
  proof -
    from region_labels(3) [of ext p gm ?nb "k + 1" s x]
    have "mat_at (labeledImage s') x = mat_at (labeledImage s) x \<or>
          mat_at (labeledImage s') x = 0 \<or>
          (highestLabel s + 1 \<le> mat_at (labeledImage s') x \<and>
           mat_at (labeledImage s') x \<le> highestLabel s')"
      unfolding s' by auto
    with a show ?thesis by linarith
  qed
  have f: "\<forall>l \<in> set (map fst (labelPlaneParameters s)). l \<le> highestLabel s"
    using old by blast
  have ls: "ls = refinedLabels (k + 1) (highestLabel s) (length (rr_planes d))"
    unfolding ls_def d_def s_def by simp
  have g: "if regionRefined ext p gm ?nb (k + 1) s
          then highestLabel s' = highestLabel s + int (length (rr_planes d) - 1) \<and>
               labeledImage s' =
                 resetUnassigned ext (rr_points d) (rr_unassigned d)
                   (relabelPlanes ext (rr_points d) (k + 1) (labeledImage s) (zip ls (rr_planes d))) \<and>
               labelPlaneParameters s' =
                 labelPlaneParameters s @ planeEntries ext p (rr_points d) (zip ls (rr_planes d))
          else highestLabel s' = highestLabel s \<and> labeledImage s' = labeledImage s"
    using region_refined_or_not [of ext p gm ?nb "k + 1" s]
    unfolding s' ls d_def s_def by simp
  have len: "length ls = length (rr_planes d)"
    unfolding ls by (rule length_refinedLabels)
  have dls: "distinct ls"
    unfolding ls using le by (rule distinct_refinedLabels)
  then have inj: "\<forall>i < length ls. \<forall>j < length ls. i \<noteq> j \<longrightarrow> ls ! i \<noteq> ls ! j"
    by (simp add: distinct_conv_nth)
  have nth: "\<forall>i < length ls. ls ! i = (if i = 0 then k + 1 else highestLabel s + int i)"
    unfolding len unfolding ls by (simp add: nth_refinedLabels)
  have fresh: "\<forall>i < length ls. 0 < i \<longrightarrow>
            N < ls ! i \<and> highestLabel s < ls ! i \<and> ls ! i \<le> highestLabel s + int (length ls - 1)"
  proof (intro allI impI)
    fix i assume i: "i < length ls" "0 < i"
    with nth have "ls ! i = highestLabel s + int i" by simp
    with i a show "N < ls ! i \<and> highestLabel s < ls ! i \<and> ls ! i \<le> highestLabel s + int (length ls - 1)"
      by simp
  qed
  have cells: "mat_at (labeledImage s') (cellOf ext (rr_points d) c) =
               (if i = 0 then mat_at (labeledImage s) (cellOf ext (rr_points d) c)
                else highestLabel s + int i)"
    if ref: "regionRefined ext p gm ?nb (k + 1) s"
      and dist: "distinct (map (cellOf ext (rr_points d)) (concat (rr_planes d) @ rr_unassigned d))"
      and i: "i < length (rr_planes d)" and c: "c \<in> set (rr_planes d ! i)" for i c
  proof -
    from ref have "s' = refineLabelWithRansac ext p (k + 1) (snd (collectPoints ext gm ?nb (k + 1) s)) s"
      unfolding s' computePlaneParametersForLabel_eq regionRefined_def by simp
    moreover have "d = detectPlanes ext (snd (collectPoints ext gm ?nb (k + 1) s))"
      unfolding d_def s_def regionDetected_def by simp
    ultimately show ?thesis
      using refined_cell_label [of "k + 1" s ext "snd (collectPoints ext gm ?nb (k + 1) s)" i c p]
        le dist i c by simp
  qed
  then have h: "regionRefined ext p gm ?nb (k + 1) s \<and>
          distinct (map (cellOf ext (rr_points d)) (concat (rr_planes d) @ rr_unassigned d)) \<longrightarrow>
          (\<forall>i < length (rr_planes d). \<forall>c \<in> set (rr_planes d ! i).
             mat_at (labeledImage s') (cellOf ext (rr_points d) c) =
               (if i = 0 then mat_at (labeledImage s) (cellOf ext (rr_points d) c)
                else highestLabel s + int i))"
    by blast
  from a b c d f dall g len dls inj nth fresh h show ?thesis by blast
qed

text \<open>
  In the example run with the refinement enabled and a detector that finds three planes
  of one point each, the segmentation leaves \<open>highestLabel\<close> at 1; the region of label 1
  is refined, its planes get the labels 1, 2 and 3, and \<open>highestLabel\<close> rises to 3.
\<close>

theorem labels_only_grow_witness:
  "(0::int) \<le> 0 \<and>
   0 < highestLabel (stateAfter tripleExternals (testParameters True) checkerMap freshExtractor 0) \<and>
   regionRefined tripleExternals (testParameters True) checkerMap
     (surfaceNormals (segmented tripleExternals (testParameters True) checkerMap freshExtractor)) 1
     (stateAfter tripleExternals (testParameters True) checkerMap freshExtractor 0) \<and>
   rr_planes (regionDetected tripleExternals checkerMap
     (surfaceNormals (segmented tripleExternals (testParameters True) checkerMap freshExtractor)) 1
     (stateAfter tripleExternals (testParameters True) checkerMap freshExtractor 0)) = [[0], [1], [2]] \<and>
   distinct (map (cellOf tripleExternals (rr_points (regionDetected tripleExternals checkerMap
          (surfaceNormals (segmented tripleExternals (testParameters True) checkerMap freshExtractor)) 1
          (stateAfter tripleExternals (testParameters True) checkerMap freshExtractor 0))))
     (concat (rr_planes (regionDetected tripleExternals checkerMap
          (surfaceNormals (segmented tripleExternals (testParameters True) checkerMap freshExtractor)) 1
          (stateAfter tripleExternals (testParameters True) checkerMap freshExtractor 0))) @
      rr_unassigned (regionDetected tripleExternals checkerMap
          (surfaceNormals (segmented tripleExternals (testParameters True) checkerMap freshExtractor)) 1
          (stateAfter tripleExternals (testParameters True) checkerMap freshExtractor 0)))) \<and>
   refinedLabels 1 1 3 = [1, 2, 3] \<and>
   highestLabel (stateAfter tripleExternals (testParameters True) checkerMap freshExtractor 0) = 1 \<and>
   highestLabel (stateAfter tripleExternals (testParameters True) checkerMap freshExtractor (0 + 1)) = 3 \<and>
   map fst (labelPlaneParameters
     (stateAfter tripleExternals (testParameters True) checkerMap freshExtractor (0 + 1))) = [1, 2, 3] \<and>
   map (mat_at (labeledImage
     (stateAfter tripleExternals (testParameters True) checkerMap freshExtractor (0 + 1))))
     [(1, 1), (2, 1), (1, 2), (2, 2)] = [0, 3, 2, 1]"
proof -
  let ?s0 = "stateAfter tripleExternals (testParameters True) checkerMap freshExtractor 0"
  let ?s1 = "stateAfter tripleExternals (testParameters True) checkerMap freshExtractor (0 + 1)"
  have h1: "(0::int) \<le> 0" by simp
  have h2: "0 < highestLabel ?s0" by (simp add: triple_run(1))
  from labels_only_grow [OF h1 h2] triple_region(1)
  have "highestLabel ?s1 = highestLabel ?s0 +
          int (length (rr_planes (regionDetected tripleExternals checkerMap
            (surfaceNormals (segmented tripleExternals (testParameters True) checkerMap freshExtractor))
            (0 + 1) ?s0)) - 1)"
    by simp
  then have "highestLabel ?s1 = 3"
    by (simp add: triple_region(2) triple_run(1))
  moreover have "refinedLabels 1 1 3 = [1, 2, 3]"
    by (simp add: refinedLabels_def upto_rec1)
  moreover have "distinct (map (cellOf tripleExternals (rr_points (regionDetected tripleExternals checkerMap
          (surfaceNormals (segmented tripleExternals (testParameters True) checkerMap freshExtractor)) 1
          (stateAfter tripleExternals (testParameters True) checkerMap freshExtractor 0))))
     (concat (rr_planes (regionDetected tripleExternals checkerMap
          (surfaceNormals (segmented tripleExternals (testParameters True) checkerMap freshExtractor)) 1
          (stateAfter tripleExternals (testParameters True) checkerMap freshExtractor 0))) @
      rr_unassigned (regionDetected tripleExternals checkerMap
          (surfaceNormals (segmented tripleExternals (testParameters True) checkerMap freshExtractor)) 1
          (stateAfter tripleExternals (testParameters True) checkerMap freshExtractor 0))))"
    unfolding triple_cells by simp
  ultimately show ?thesis
    using h1 h2 triple_run triple_region by simp
qed

subsection \<open>Cells without a finite height\<close>

lemma segmented_resolution:
  "resolution (segmentedPlanesMap (segmented ext p gm e)) = gm_resolution gm"
  "mapOrigin (segmentedPlanesMap (segmented ext p gm e)) = gm_origin gm"
  by (simp_all add: segmented_def runSegmentation_def runSlidingWindowDetector_def Let_def
      slidingWindowScan_def scan_spm initExtraction_def split: prod.splits)

lemma scanned_mask_finite:
  assumes "mat_at (binaryImagePatch (scanned ext p gm e)) x"
  shows "gm_elevation gm x \<noteq> None"
proof -
  obtain row col where x: "x = (row, col)" by (cases x)
  have ins: "dataInsideMap gm (kernelMiddle p) (row, col)"
    using assms scanned_mask_outside [of gm p x ext e] x by blast
  from assms show ?thesis
    unfolding x scanned_mask_inside [OF ins] by simp
qed

lemma segmented_image_finite:
  assumes "erosionShrinks ext" and "labelsInsideMask ext"
    and "mat_at (labeledImage (segmentedPlanesMap (segmented ext p gm e))) x \<noteq> 0"
  shows "gm_elevation gm x \<noteq> None"
proof -
  let ?m = "binaryImagePatch (runSlidingWindowDetector ext p gm (initExtraction ext gm e))"
  have "labeledImage (segmentedPlanesMap (segmented ext p gm e)) =
        snd (connectedComponents ext ?m (connectivity p))"
    by (simp add: segmented_def runSegmentation_def split: prod.splits)
  with assms(2,3) have m: "mat_at ?m x"
    unfolding labelsInsideMask_def by metis
  have "mat_at (binaryImagePatch (scanned ext p gm e)) x"
  proof (cases "planarity_erosion p > 0")
    case True
    then have "?m = erodeCross ext (2 * planarity_erosion p + 1) (binaryImagePatch (scanned ext p gm e))"
      by (simp add: runSlidingWindowDetector_def scanned_def Let_def)
    with m assms(1) show ?thesis
      unfolding erosionShrinks_def by metis
  next
    case False
    then have "?m = binaryImagePatch (scanned ext p gm e)"
      by (simp add: runSlidingWindowDetector_def scanned_def Let_def)
    with m show ?thesis by simp
  qed
  then show ?thesis by (rule scanned_mask_finite)
qed

text \<open>Every collected point is the point of a cell of finite height.\<close>

lemma collectStep_points:
  assumes "\<And>pw. pw \<in> set (snd acc) \<Longrightarrow>
             \<exists>index h. gm_elevation gm index = Some h \<and>
               fst pw = (fst (mapOrigin s) - real (fst index) * resolution s,
                         snd (mapOrigin s) - real (snd index) * resolution s, h)"
    and "pw \<in> set (snd (collectStep ext gm nb label s acc c))"
  shows "\<exists>index h. gm_elevation gm index = Some h \<and>
               fst pw = (fst (mapOrigin s) - real (fst index) * resolution s,
                         snd (mapOrigin s) - real (snd index) * resolution s, h)"
proof (cases "mat_at (labeledImage s) c = label")
  case False
  with assms show ?thesis by (simp add: collectStep_def)
next
  case True
  show ?thesis
  proof (cases "gm_elevation gm c")
    case None
    with True assms show ?thesis by (simp add: collectStep_def)
  next
    case (Some h)
    with True assms(2) have "pw \<in> set (snd acc) \<or>
        fst pw = (fst (mapOrigin s) - real (fst c) * resolution s,
                  snd (mapOrigin s) - real (snd c) * resolution s, h)"
      by (auto simp: collectStep_def Let_def)
    then show ?thesis
    proof
      assume "pw \<in> set (snd acc)"
      then show ?thesis by (rule assms(1))
    next
      assume "fst pw = (fst (mapOrigin s) - real (fst c) * resolution s,
                  snd (mapOrigin s) - real (snd c) * resolution s, h)"
      with Some show ?thesis by blast
    qed
  qed
qed

lemma collect_fold_points:
  assumes "\<And>pw. pw \<in> set (snd acc) \<Longrightarrow>
             \<exists>index h. gm_elevation gm index = Some h \<and>
               fst pw = (fst (mapOrigin s) - real (fst index) * resolution s,
                         snd (mapOrigin s) - real (snd index) * resolution s, h)"
    and "pw \<in> set (snd (foldl (collectStep ext gm nb label s) acc cs))"
  shows "\<exists>index h. gm_elevation gm index = Some h \<and>
               fst pw = (fst (mapOrigin s) - real (fst index) * resolution s,
                         snd (mapOrigin s) - real (snd index) * resolution s, h)"
  using assms
proof (induction cs arbitrary: acc)
  case Nil
  then show ?case by simp
next
  case (Cons c cs)
  show ?case
  proof (rule Cons.IH [of "collectStep ext gm nb label s acc c"])
    fix pw'
    assume "pw' \<in> set (snd (collectStep ext gm nb label s acc c))"
    with Cons.prems(1) show "\<exists>index h. gm_elevation gm index = Some h \<and>
               fst pw' = (fst (mapOrigin s) - real (fst index) * resolution s,
                         snd (mapOrigin s) - real (snd index) * resolution s, h)"
      by (rule collectStep_points)
  next
    from Cons.prems(2)
    show "pw \<in> set (snd (foldl (collectStep ext gm nb label s) (collectStep ext gm nb label s acc c) cs))"
      by simp
  qed
qed

lemma collectPoints_points:
  assumes "pw \<in> set (snd (collectPoints ext gm nb label s))"
  shows "\<exists>index h. gm_elevation gm index = Some h \<and>
               fst pw = (fst (mapOrigin s) - real (fst index) * resolution s,
                         snd (mapOrigin s) - real (snd index) * resolution s, h)"
proof (rule collect_fold_points)
  show "pw \<in> set (snd (foldl (collectStep ext gm nb label s) ((0, Zero3, ZeroM), [])
          (allCells (mat_rows (labeledImage s)) (mat_cols (labeledImage s)))))"
    using assms by (simp add: collectPoints_def)
qed simp

lemma region_resolution:
  "resolution (computePlaneParametersForLabel ext p gm nb label s) = resolution s"
  "mapOrigin (computePlaneParametersForLabel ext p gm nb label s) = mapOrigin s"
  by (simp_all add: computePlaneParametersForLabel_eq refineLabelWithRansac_eq emitPlane_def)

text \<open>A cell that the refinement relabels has a finite height.\<close>

lemma claimed_cell_finite:
  assumes det: "detectorKeepsPoints ext" and look: "lookupFindsCell ext gm"
    and res: "resolution s = gm_resolution gm" "mapOrigin s = gm_origin gm"
    and q: "q \<in> set (rr_planes (detectPlanes ext (snd (collectPoints ext gm nb label s))))"
    and i: "i \<in> set q"
  shows "gm_elevation gm
           (cellOf ext (rr_points (detectPlanes ext (snd (collectPoints ext gm nb label s)))) i) \<noteq> None"
proof -
  let ?collected = "snd (collectPoints ext gm nb label s)"
  let ?pts = "rr_points (detectPlanes ext ?collected)"
  from det q i have "i < length ?pts"
    unfolding detectorKeepsPoints_def by blast
  then have m: "?pts ! i \<in> set ?pts" by (rule nth_mem)
  from det have "set ?pts \<subseteq> set ?collected"
    unfolding detectorKeepsPoints_def by blast
  with m have m0: "?pts ! i \<in> set ?collected" by blast
  from collectPoints_points [OF m0]
  obtain index h where h: "gm_elevation gm index = Some h"
    and pt: "fst (?pts ! i) = (fst (mapOrigin s) - real (fst index) * resolution s,
                              snd (mapOrigin s) - real (snd index) * resolution s, h)"
    by blast
  from look h have "getIndex ext (fst (gm_origin gm) - real (fst index) * gm_resolution gm,
                      snd (gm_origin gm) - real (snd index) * gm_resolution gm) = index"
    unfolding lookupFindsCell_def by blast
  then have "cellOf ext ?pts i = index"
    by (simp add: cellOf_def pt res)
  with h show ?thesis by simp
qed

lemma region_keeps_background:
  assumes det: "detectorKeepsPoints ext" and look: "lookupFindsCell ext gm"
    and res: "resolution s = gm_resolution gm" "mapOrigin s = gm_origin gm"
    and inv: "mat_at (labeledImage s) x = 0"
    and x: "gm_elevation gm x = None"
  shows "mat_at (labeledImage (computePlaneParametersForLabel ext p gm nb label s)) x = 0"
proof -
  let ?collected = "snd (collectPoints ext gm nb label s)"
  let ?r = "detectPlanes ext ?collected"
  let ?ls = "refinedLabels label (highestLabel s) (length (rr_planes ?r))"
  let ?s' = "computePlaneParametersForLabel ext p gm nb label s"
  have "labeledImage ?s' = labeledImage s \<or>
        labeledImage ?s' =
          resetUnassigned ext (rr_points ?r) (rr_unassigned ?r)
            (relabelPlanes ext (rr_points ?r) label (labeledImage s) (zip ?ls (rr_planes ?r)))"
    by (simp add: computePlaneParametersForLabel_eq refineLabelWithRansac_eq emitPlane_def)
  then show ?thesis
  proof
    assume "labeledImage ?s' = labeledImage s"
    with inv show ?thesis by simp
  next
    assume img: "labeledImage ?s' =
          resetUnassigned ext (rr_points ?r) (rr_unassigned ?r)
            (relabelPlanes ext (rr_points ?r) label (labeledImage s) (zip ?ls (rr_planes ?r)))"
    have "x \<notin> cellOf ext (rr_points ?r) ` set q" if "(l, q) \<in> set (zip ?ls (rr_planes ?r))" for l q
    proof
      assume "x \<in> cellOf ext (rr_points ?r) ` set q"
      then obtain i where i: "i \<in> set q" "x = cellOf ext (rr_points ?r) i" by blast
      from that have "q \<in> set (rr_planes ?r)" by (rule set_zip_rightD)
      from claimed_cell_finite [OF det look res this i(1)] i(2) x show False by simp
    qed
    then have "mat_at (relabelPlanes ext (rr_points ?r) label (labeledImage s) (zip ?ls (rr_planes ?r))) x
        = mat_at (labeledImage s) x"
      by (rule relabelPlanes_other)
    with inv show ?thesis
      by (simp add: img resetUnassigned_at)
  qed
qed

lemma stateAfter_background:
  assumes ero: "erosionShrinks ext" and lab: "labelsInsideMask ext"
    and det: "detectorKeepsPoints ext" and look: "lookupFindsCell ext gm"
    and x: "gm_elevation gm x = None"
    and k: "0 \<le> k"
  shows "resolution (stateAfter ext p gm e k) = gm_resolution gm \<and>
         mapOrigin (stateAfter ext p gm e k) = gm_origin gm \<and>
         mat_at (labeledImage (stateAfter ext p gm e k)) x = 0"
  using k
proof (induction k rule: int_ge_induct)
  case base
  have "mat_at (labeledImage (segmentedPlanesMap (segmented ext p gm e))) x = 0"
    using segmented_image_finite [OF ero lab, of p gm e x] x by blast
  then show ?case
    by (simp add: stateAfter_0 segmented_resolution)
next
  case (step k)
  let ?nb = "surfaceNormals (segmented ext p gm e)"
  have s': "stateAfter ext p gm e (k + 1) =
        computePlaneParametersForLabel ext p gm ?nb (k + 1) (stateAfter ext p gm e k)"
    using step.hyps by (rule stateAfter_Suc)
  from step.IH have res: "resolution (stateAfter ext p gm e k) = gm_resolution gm"
    "mapOrigin (stateAfter ext p gm e k) = gm_origin gm"
    and inv: "mat_at (labeledImage (stateAfter ext p gm e k)) x = 0"
    by simp_all
  from det look res inv x
  have "mat_at (labeledImage (computePlaneParametersForLabel ext p gm ?nb (k + 1)
          (stateAfter ext p gm e k))) x = 0"
    by (rule region_keeps_background)
  with res show ?case
    by (simp add: s' region_resolution)
qed

text \<open>
  C7. Let the collaborators keep their contracts. Then a cell whose height is not finite
  carries the label 0 after the segmentation, after every region of the loop over the
  labels, and when the run ends.
\<close>

theorem background_stays_zero:
  assumes "erosionShrinks ext" and "labelsInsideMask ext"
    and "detectorKeepsPoints ext" and "lookupFindsCell ext gm"
    and "gm_elevation gm x = None"
  shows "mat_at (labeledImage (stateAfter ext p gm e k)) x = 0 \<and>
         mat_at (labeledImage (segmentedPlanesMap (runExtraction ext p gm e))) x = 0"
proof -
  have a: "mat_at (labeledImage (stateAfter ext p gm e j)) x = 0" for j
  proof (cases "0 \<le> j")
    case True
    with assms show ?thesis by (simp add: stateAfter_background)
  next
    case False
    then have "stateAfter ext p gm e j = stateAfter ext p gm e 0"
      by (intro stateAfter_neg) simp
    moreover have "mat_at (labeledImage (stateAfter ext p gm e 0)) x = 0"
      using assms by (simp add: stateAfter_background)
    ultimately show ?thesis by simp
  qed
  show ?thesis
    unfolding run_stateAfter using a by simp
qed

lemma hole_run:
  "map (mat_at (labeledImage (stateAfter testExternals holeParameters holeMap freshExtractor 0)))
     [(1, 1), (2, 1), (1, 2), (2, 2)] = [1, 1, 1, 0]"
  "map (mat_at (labeledImage (stateAfter testExternals holeParameters holeMap freshExtractor 1)))
     [(1, 1), (2, 1), (1, 2), (2, 2)] = [0, 2, 1, 0]"
  "map (mat_at (labeledImage (segmentedPlanesMap
       (runExtraction testExternals holeParameters holeMap freshExtractor))))
     [(1, 1), (2, 1), (1, 2), (2, 2)] = [0, 2, 1, 0]"
  by (simp_all add: stateAfter_def model_defs fixture_defs upt_rec holeMap_def holeParameters_def)

lemma test_erosionShrinks: "erosionShrinks testExternals"
  by (simp add: erosionShrinks_def testExternals_def)

lemma test_labelsInsideMask: "labelsInsideMask testExternals"
  by (simp add: labelsInsideMask_def testExternals_def oneComponent_def)

lemma test_detectorKeepsPoints: "detectorKeepsPoints testExternals"
  by (auto simp: detectorKeepsPoints_def testExternals_def singletonDetector_def)

lemma nearestIndex_cell: "nearestIndex (0 - real row * 1, 0 - real col * 1) = (row, col)"
proof -
  have "\<lfloor>1 / 2 + real n\<rfloor> = int n" for n
    by (rule floor_unique) simp_all
  then show ?thesis
    by (simp add: nearestIndex_def)
qed

lemma test_lookupFindsCell: "lookupFindsCell testExternals holeMap"
  unfolding lookupFindsCell_def
proof (intro allI impI)
  fix index :: "nat \<times> nat" and h
  have "getIndex testExternals (0 - real (fst index) * 1, 0 - real (snd index) * 1) = index"
    using nearestIndex_cell [of "fst index" "snd index"] by (simp add: testExternals_def)
  then show "getIndex testExternals
          (fst (gm_origin holeMap) - real (fst index) * gm_resolution holeMap,
           snd (gm_origin holeMap) - real (snd index) * gm_resolution holeMap) = index"
    by (simp add: holeMap_def checkerMap_def)
qed

text \<open>
  On the map with the hole, the cell (2, 2) has the label 0 after the segmentation,
  after the region of label 1 (which the refinement splits: (1, 2) keeps 1, (2, 1) gets 2,
  (1, 1) becomes 0) and at the end of the run.
\<close>

theorem background_stays_zero_witness:
  "erosionShrinks testExternals \<and> labelsInsideMask testExternals \<and>
   detectorKeepsPoints testExternals \<and> lookupFindsCell testExternals holeMap \<and>
   gm_elevation holeMap (2, 2) = None \<and>
   map (mat_at (labeledImage (stateAfter testExternals holeParameters holeMap freshExtractor 0)))
     [(1, 1), (2, 1), (1, 2), (2, 2)] = [1, 1, 1, 0] \<and>
   map (mat_at (labeledImage (stateAfter testExternals holeParameters holeMap freshExtractor 1)))
     [(1, 1), (2, 1), (1, 2), (2, 2)] = [0, 2, 1, 0] \<and>
   map (mat_at (labeledImage (segmentedPlanesMap
       (runExtraction testExternals holeParameters holeMap freshExtractor))))
     [(1, 1), (2, 1), (1, 2), (2, 2)] = [0, 2, 1, 0]"
proof -
  have none: "gm_elevation holeMap (2, 2) = None"
    by (simp add: holeMap_def)
  note bg = background_stays_zero [OF test_erosionShrinks test_labelsInsideMask
      test_detectorKeepsPoints test_lookupFindsCell none, of holeParameters freshExtractor]
  from bg [of 0] bg [of 1] hole_run
  have "map (mat_at (labeledImage (stateAfter testExternals holeParameters holeMap freshExtractor 0)))
     [(1, 1), (2, 1), (1, 2), (2, 2)] = [1, 1, 1, 0] \<and>
   map (mat_at (labeledImage (stateAfter testExternals holeParameters holeMap freshExtractor 1)))
     [(1, 1), (2, 1), (1, 2), (2, 2)] = [0, 2, 1, 0] \<and>
   map (mat_at (labeledImage (segmentedPlanesMap
       (runExtraction testExternals holeParameters holeMap freshExtractor))))
     [(1, 1), (2, 1), (1, 2), (2, 2)] = [0, 2, 1, 0]"
    by simp
  with none test_erosionShrinks test_labelsInsideMask test_detectorKeepsPoints test_lookupFindsCell
  show ?thesis by simp
qed

end
